theory Spec2Isabelle
  imports Main
begin

section \<open>The project generator of \<^verbatim>\<open>src/main.py\<close>\<close>

text \<open>
  The script creates or modifies files of a Git project with the text a language model
  streams back, and commits the result. Everything it does is an effect on its
  surroundings, so the embedding passes a \<open>world\<close> through every step: the file system,
  the state of the Git repository, the number of model requests made so far, and the
  trace of the effects in the order they happened. An exception of the Python is an
  outcome \<open>Raised e\<close>, returned together with the world as it was when the exception
  left the function: nothing is undone.

  The two external collaborators answer through a record of \<open>services\<close>: the model
  service gives a response for each request, the \<^verbatim>\<open>git\<close> executable an exit status
  for each command. The theorems hold whatever they answer.

  Boundaries of the model: a POSIX file system without symbolic links, where a path that
  starts with two slashes is a path from the root; no permission, quota or device
  errors; the \<^verbatim>\<open>git\<close> executable is installed, and a command of it that fails leaves
  things as they were; the chunks of a stream are the dictionaries the service sends; the
  command line as \<^verbatim>\<open>argparse\<close> has parsed it. Messages on standard output are
  kept as what they say, not as their text.
\<close>

subsection \<open>Strings and paths\<close>

text \<open>A Python \<^verbatim>\<open>str\<close> is a sequence of Unicode code points.\<close>

type_synonym ustring = "nat list"

text \<open>
  An absolute path in canonical form is the list of its component names from the root;
  the root is the empty list. A path as \<^verbatim>\<open>pathlib\<close> holds it may still have
  \<^verbatim>\<open>..\<close> components: \<^verbatim>\<open>pathlib\<close> never collapses them, the kernel does when the path
  is used.
\<close>

type_synonym path = "ustring list"

datatype pure_path = PurePath (anchored: bool) (parts: "ustring list")

definition slash :: nat where
  "slash = 47"

definition dot :: ustring where
  "dot = [46]"

definition dotdot :: ustring where
  "dotdot = [46, 46]"

definition dot_git :: ustring where
  \<comment> \<open>\<^verbatim>\<open>".git"\<close>\<close>
  "dot_git = [46, 103, 105, 116]"

fun split_sep :: "nat \<Rightarrow> ustring \<Rightarrow> ustring list" where
  \<comment> \<open>\<^verbatim>\<open>s.split(sep)\<close> for a one-character separator: never the empty list\<close>
  "split_sep sep [] = [[]]"
| "split_sep sep (c # s) =
     (if c = sep then [] # split_sep sep s
      else (case split_sep sep s of
              [] \<Rightarrow> [[c]]
            | x # xs \<Rightarrow> (c # x) # xs))"

definition Path :: "ustring \<Rightarrow> pure_path" where
  \<comment> \<open>\<^verbatim>\<open>Path(s)\<close>: the path is anchored when the text starts with a slash; empty
      components and \<^verbatim>\<open>.\<close> components are dropped, \<^verbatim>\<open>..\<close> components are kept\<close>
  "Path s = PurePath (s \<noteq> [] \<and> hd s = slash)
                     (filter (\<lambda>x. x \<noteq> [] \<and> x \<noteq> dot) (split_sep slash s))"

definition normpath :: "ustring list \<Rightarrow> path" where
  \<comment> \<open>collapsing \<^verbatim>\<open>..\<close> from the left; the parent of the root is the root\<close>
  "normpath cs = foldl (\<lambda>acc c. if c = dotdot then butlast acc else acc @ [c]) [] cs"

definition resolve :: "path \<Rightarrow> pure_path \<Rightarrow> ustring list" where
  \<comment> \<open>\<^verbatim>\<open>p.resolve()\<close> with the current directory \<open>cwd\<close>, where no component is a
      symbolic link: the absolute path, normalised\<close>
  "resolve cwd p = normpath (if anchored p then parts p else cwd @ parts p)"

definition joinpath :: "ustring list \<Rightarrow> pure_path \<Rightarrow> ustring list" where
  \<comment> \<open>\<^verbatim>\<open>base / p\<close> for an absolute \<open>base\<close>: an anchored right operand replaces the base\<close>
  "joinpath base p = (if anchored p then parts p else base @ parts p)"

definition parent :: "ustring list \<Rightarrow> ustring list" where
  \<comment> \<open>\<^verbatim>\<open>p.parent\<close>: lexical; the parent of the root is the root\<close>
  "parent p = butlast p"

subsection \<open>The file system\<close>

text \<open>
  A regular file holds text (what decoding its bytes as UTF-8 gives) or, when its bytes
  are not valid UTF-8, those bytes.
\<close>

datatype contents = Text ustring | Bytes "nat list"

datatype node = Dir | File contents

type_synonym filesystem = "path \<Rightarrow> node option"

datatype errno = ENOENT | ENOTDIR | EEXIST | EISDIR

fun walk :: "filesystem \<Rightarrow> path \<Rightarrow> ustring list \<Rightarrow> errno + path" where
  \<comment> \<open>the kernel's path resolution from the directory \<open>cur\<close>: every component but the
      last is looked up in a directory that must exist\<close>
  "walk fs cur [] = Inr cur"
| "walk fs cur (c # cs) =
     (case fs cur of
        None \<Rightarrow> Inl ENOENT
      | Some (File _) \<Rightarrow> Inl ENOTDIR
      | Some Dir \<Rightarrow> walk fs (if c = dotdot then butlast cur else cur @ [c]) cs)"

definition stat :: "filesystem \<Rightarrow> ustring list \<Rightarrow> errno + node" where
  "stat fs p =
     (case walk fs [] p of
        Inl e \<Rightarrow> Inl e
      | Inr q \<Rightarrow> (case fs q of None \<Rightarrow> Inl ENOENT | Some n \<Rightarrow> Inr n))"

definition exists :: "filesystem \<Rightarrow> ustring list \<Rightarrow> bool" where
  \<comment> \<open>\<^verbatim>\<open>p.exists()\<close>: a failing \<^verbatim>\<open>stat\<close> (no such entry, not a directory) is False\<close>
  "exists fs p = (case stat fs p of Inl _ \<Rightarrow> False | Inr _ \<Rightarrow> True)"

definition is_dir :: "filesystem \<Rightarrow> ustring list \<Rightarrow> bool" where
  "is_dir fs p = (case stat fs p of Inr Dir \<Rightarrow> True | _ \<Rightarrow> False)"

definition os_mkdir :: "filesystem \<Rightarrow> ustring list \<Rightarrow> errno + filesystem" where
  \<comment> \<open>\<^verbatim>\<open>os.mkdir(p)\<close>\<close>
  "os_mkdir fs p =
     (case walk fs [] p of
        Inl e \<Rightarrow> Inl e
      | Inr q \<Rightarrow> (case fs q of None \<Rightarrow> Inr (fs(q \<mapsto> Dir)) | Some _ \<Rightarrow> Inl EEXIST))"

fun mkdir_parents :: "filesystem \<Rightarrow> ustring list \<Rightarrow> errno + filesystem" where
  \<comment> \<open>\<^verbatim>\<open>p.mkdir(parents=True, exist_ok=True)\<close>, by recursion on the lexical path, the
      way \<^verbatim>\<open>pathlib\<close> does it: \<^verbatim>\<open>FileNotFoundError\<close> makes the parent first and tries
      once more; any other \<^verbatim>\<open>OSError\<close> is swallowed when the path is a directory\<close>
  "mkdir_parents fs p =
     (case os_mkdir fs p of
        Inr fs' \<Rightarrow> Inr fs'
      | Inl ENOENT \<Rightarrow>
          (if p = [] then Inl ENOENT
           else (case mkdir_parents fs (butlast p) of
                   Inl e \<Rightarrow> Inl e
                 | Inr fs1 \<Rightarrow>
                     (case os_mkdir fs1 p of
                        Inr fs2 \<Rightarrow> Inr fs2
                      | Inl ENOENT \<Rightarrow> Inl ENOENT
                      | Inl e \<Rightarrow> if is_dir fs1 p then Inr fs1 else Inl e)))
      | Inl e \<Rightarrow> if is_dir fs p then Inr fs else Inl e)"

fun universal_newlines :: "ustring \<Rightarrow> ustring" where
  \<comment> \<open>reading in text mode with the default \<^verbatim>\<open>newline=None\<close>: a carriage return, with
      the line feed after it if there is one, is read as a line feed\<close>
  "universal_newlines [] = []"
| "universal_newlines [c] = [if c = 13 then 10 else c]"
| "universal_newlines (c # d # s) =
     (if c = 13 \<and> d = 10 then 10 # universal_newlines s
      else if c = 13 then 10 # universal_newlines (d # s)
      else c # universal_newlines (d # s))"

definition encodable :: "ustring \<Rightarrow> bool" where
  \<comment> \<open>UTF-8 encodes every code point but the surrogates\<close>
  "encodable s = list_all (\<lambda>c. c < 55296 \<or> 57343 < c) s"

subsection \<open>The external collaborators\<close>

datatype git_cmd = GitInit | GitAddAll | GitCommit ustring

text \<open>
  A chunk of a streamed chat completion, as far as the script looks into it: the
  \<^verbatim>\<open>"choices"\<close> key may be missing, the list may be empty, the first choice may have no
  \<^verbatim>\<open>"delta"\<close>, the delta may have no \<^verbatim>\<open>"content"\<close> (or \<^verbatim>\<open>None\<close> for it).
\<close>

datatype delta = Delta (content: "ustring option")

datatype choice = Choice (delta: "delta option")

datatype chunk = Chunk (choices: "choice list option")

datatype ending = EndOfStream | Broken

datatype response = RequestFailed | Stream "chunk list" ending

text \<open>
  \<open>chat_completion n model prompt\<close> is the answer to the n-th request of the run;
  \<open>git_exit cmd\<close> is the exit status of a \<^verbatim>\<open>git\<close> command.
\<close>

record services =
  chat_completion :: "nat \<Rightarrow> ustring \<Rightarrow> ustring \<Rightarrow> response"
  git_exit :: "git_cmd \<Rightarrow> nat"

subsection \<open>The world, its trace and the exceptions\<close>

datatype message =
    MissingKey                      \<comment> \<open>the credential is not set\<close>
  | CreatingDirectory path          \<comment> \<open>line 58\<close>
  | NotADirectory path              \<comment> \<open>line 64, the reported error\<close>
  | InitialisingRepository          \<comment> \<open>line 69\<close>
  | FileStarted ustring ustring     \<comment> \<open>line 97: the verb and the file path\<close>
  | Fragment ustring                \<comment> \<open>line 111: a piece of the stream, as it arrives\<close>
  | FileDone ustring ustring        \<comment> \<open>line 118: the file path and the verb\<close>
  | Committing                      \<comment> \<open>line 121\<close>
  | ProjectDone ustring             \<comment> \<open>line 125: the verb\<close>

datatype event =
    Stdout message
  | MkdirParents path
  | ReadFile path
  | ChatCompletionCreate ustring ustring
  | WriteFile path ustring
  | SubprocessRun git_cmd path

datatype error =
    OSError errno
  | UnicodeDecodeError
  | UnicodeEncodeError
  | CalledProcessError git_cmd nat
  | APIError
  | StreamError

datatype 'a result = Returned 'a | Raised error

type_synonym tree = "path \<Rightarrow> node option"

text \<open>
  \<open>staged\<close> is the index of the repository, \<open>commits\<close> its history (message and
  content of each commit), \<open>requests\<close> the number of model requests made so far.
\<close>

record world =
  disk :: filesystem
  staged :: tree
  commits :: "(ustring \<times> tree) list"
  requests :: nat
  trace :: "event list"

definition log :: "event \<Rightarrow> world \<Rightarrow> world" where
  "log e w = w\<lparr>trace := trace w @ [e]\<rparr>"

definition print :: "message \<Rightarrow> world \<Rightarrow> world" where
  "print m w = log (Stdout m) w"

definition mkdir :: "ustring list \<Rightarrow> world \<Rightarrow> unit result \<times> world" where
  \<comment> \<open>\<^verbatim>\<open>p.mkdir(parents=True, exist_ok=True)\<close> as an effect\<close>
  "mkdir p w =
     (let w1 = log (MkdirParents p) w in
      case mkdir_parents (disk w1) p of
        Inl e \<Rightarrow> (Raised (OSError e), w1)
      | Inr fs' \<Rightarrow> (Returned (), w1\<lparr>disk := fs'\<rparr>))"

definition read_text :: "ustring list \<Rightarrow> world \<Rightarrow> ustring result \<times> world" where
  \<comment> \<open>lines 82-83: \<^verbatim>\<open>open(p, "r", encoding="utf-8")\<close> and \<^verbatim>\<open>f.read()\<close>\<close>
  "read_text p w =
     (let w1 = log (ReadFile p) w in
      case stat (disk w1) p of
        Inl e \<Rightarrow> (Raised (OSError e), w1)
      | Inr Dir \<Rightarrow> (Raised (OSError EISDIR), w1)
      | Inr (File (Bytes _)) \<Rightarrow> (Raised UnicodeDecodeError, w1)
      | Inr (File (Text s)) \<Rightarrow> (Returned (universal_newlines s), w1))"

definition write_text :: "ustring list \<Rightarrow> ustring \<Rightarrow> world \<Rightarrow> unit result \<times> world" where
  \<comment> \<open>lines 115-116: \<^verbatim>\<open>open(p, "w", encoding="utf-8")\<close> creates or truncates the file,
      \<^verbatim>\<open>f.write(s)\<close> encodes all of \<open>s\<close> before it writes any of it\<close>
  "write_text p s w =
     (let w1 = log (WriteFile p s) w in
      case walk (disk w1) [] p of
        Inl e \<Rightarrow> (Raised (OSError e), w1)
      | Inr q \<Rightarrow>
          (case disk w1 q of
             Some Dir \<Rightarrow> (Raised (OSError EISDIR), w1)
           | _ \<Rightarrow>
               if encodable s then (Returned (), w1\<lparr>disk := (disk w1)(q \<mapsto> File (Text s))\<rparr>)
               else (Raised UnicodeEncodeError, w1\<lparr>disk := (disk w1)(q \<mapsto> File (Text []))\<rparr>)))"

definition worktree :: "filesystem \<Rightarrow> path \<Rightarrow> tree" where
  \<comment> \<open>what \<^verbatim>\<open>git add .\<close> sees from the directory \<open>root\<close>: everything under it but the
      repository's own metadata\<close>
  "worktree fs root = (\<lambda>rel. if rel = [] \<or> hd rel = dot_git then None else fs (root @ rel))"

definition git_effect :: "git_cmd \<Rightarrow> path \<Rightarrow> world \<Rightarrow> world" where
  \<comment> \<open>what a \<^verbatim>\<open>git\<close> command that exits with status 0 has done: \<^verbatim>\<open>init\<close> leaves a
      \<^verbatim>\<open>.git\<close> entry in the directory, \<^verbatim>\<open>add .\<close> stages the working tree,
      \<^verbatim>\<open>commit -m\<close> records the index under the message\<close>
  "git_effect cmd dir w =
     (case cmd of
        GitInit \<Rightarrow>
          (if disk w (dir @ [dot_git]) = None then w\<lparr>disk := (disk w)(dir @ [dot_git] \<mapsto> Dir)\<rparr> else w)
      | GitAddAll \<Rightarrow> w\<lparr>staged := worktree (disk w) dir\<rparr>
      | GitCommit m \<Rightarrow> w\<lparr>commits := commits w @ [(m, staged w)]\<rparr>)"

definition subprocess_run :: "services \<Rightarrow> git_cmd \<Rightarrow> path \<Rightarrow> world \<Rightarrow> unit result \<times> world" where
  \<comment> \<open>\<^verbatim>\<open>subprocess.run(["git", ...], cwd=dir, check=True)\<close>: a non-zero exit status
      raises \<^verbatim>\<open>CalledProcessError\<close>; a command that failed has changed nothing\<close>
  "subprocess_run env cmd dir w =
     (let w1 = log (SubprocessRun cmd dir) w in
      if git_exit env cmd = 0 then (Returned (), git_effect cmd dir w1)
      else (Raised (CalledProcessError cmd (git_exit env cmd)), w1))"

subsection \<open>The prompt\<close>

definition verb_create :: ustring where
  \<comment> \<open>the word for "create" of the source, two code points\<close>
  "verb_create = [21019, 24314]"

definition verb_modify :: ustring where
  \<comment> \<open>the word for "modify" of the source, two code points\<close>
  "verb_modify = [20462, 25913]"

definition instruction_create :: ustring where
  \<comment> \<open>line 92, the sentence asking for content that suits the file path\<close>
  "instruction_create =
     [35831, 29983, 25104, 36866, 21512, 35813, 25991, 20214, 36335, 24452, 30340, 20869,
      23481, 58]"

definition instruction_modify :: ustring where
  \<comment> \<open>line 92, the sentence announcing the existing content, to be modified where needed\<close>
  "instruction_modify =
     [20197, 19979, 26159, 29616, 26377, 25991, 20214, 20869, 23481, 65292, 35831, 22312,
      38656, 35201, 30340, 22320, 26041, 36827, 34892, 20462, 25913, 58]"

definition action_verb :: "ustring \<Rightarrow> ustring" where
  \<comment> \<open>lines 87, 97 and 118: create \<^verbatim>\<open>if not existing_content\<close>, else modify\<close>
  "action_verb existing_content = (if existing_content = [] then verb_create else verb_modify)"

definition instruction :: "ustring \<Rightarrow> ustring" where
  "instruction existing_content =
     (if existing_content \<noteq> [] then instruction_modify else instruction_create)"

definition build_prompt :: "ustring \<Rightarrow> ustring \<Rightarrow> ustring \<Rightarrow> ustring \<Rightarrow> ustring" where
  \<comment> \<open>the f-string of lines 86-95, its fixed text as code points\<close>
  "build_prompt project_type description file_path existing_content =
     [10, 20320, 30340, 20219, 21153, 26159, 20026, 19968, 20010] @ project_type
     @ [39033, 30446] @ action_verb existing_content
     @ [25991, 20214, 12290, 10, 10, 39033, 30446, 25551, 36848, 58, 32] @ description
     @ [10, 25991, 20214, 36335, 24452, 58, 32] @ file_path
     @ [10, 10] @ instruction existing_content
     @ [10, 10] @ existing_content
     @ [10]"

subsection \<open>One file: lines 74-118\<close>

fun chunk_content :: "chunk \<Rightarrow> ustring" where
  \<comment> \<open>lines 108-109: the text of a chunk, empty where the script finds none\<close>
  "chunk_content (Chunk None) = []"
| "chunk_content (Chunk (Some [])) = []"
| "chunk_content (Chunk (Some (Choice None # _))) = []"
| "chunk_content (Chunk (Some (Choice (Some (Delta None)) # _))) = []"
| "chunk_content (Chunk (Some (Choice (Some (Delta (Some s))) # _))) = s"

fun consume :: "chunk list \<Rightarrow> ustring \<Rightarrow> world \<Rightarrow> ustring \<times> world" where
  \<comment> \<open>the loop of lines 107-112 over the chunks that arrive, \<open>new_content\<close> its accumulator\<close>
  "consume [] new_content w = (new_content, w)"
| "consume (ch # chs) new_content w =
     (if chunk_content ch \<noteq> []
      then consume chs (new_content @ chunk_content ch) (print (Fragment (chunk_content ch)) w)
      else consume chs new_content w)"

definition create_stream ::
  "services \<Rightarrow> ustring \<Rightarrow> ustring \<Rightarrow> world \<Rightarrow> (chunk list \<times> ending) result \<times> world" where
  \<comment> \<open>lines 101-105: one request with the prompt as the only user message, streaming\<close>
  "create_stream env model prompt w =
     (let w1 = log (ChatCompletionCreate model prompt) (w\<lparr>requests := Suc (requests w)\<rparr>) in
      case chat_completion env (requests w) model prompt of
        RequestFailed \<Rightarrow> (Raised APIError, w1)
      | Stream chunks e \<Rightarrow> (Returned (chunks, e), w1))"

definition read_existing :: "ustring list \<Rightarrow> world \<Rightarrow> ustring result \<times> world" where
  \<comment> \<open>lines 80-83\<close>
  "read_existing full_path w =
     (if exists (disk w) full_path then read_text full_path w else (Returned [], w))"

definition generate ::
  "services \<Rightarrow> ustring \<Rightarrow> ustring \<Rightarrow> ustring \<Rightarrow> ustring \<Rightarrow> ustring list \<Rightarrow> ustring \<Rightarrow>
   world \<Rightarrow> unit result \<times> world" where
  \<comment> \<open>lines 86-118: prompt, request, stream, write\<close>
  "generate env project_type description model file_path full_path existing_content w =
     (let prompt = build_prompt project_type description file_path existing_content;
          w1 = print (FileStarted (action_verb existing_content) file_path) w
      in case create_stream env model prompt w1 of
           (Raised e, w2) \<Rightarrow> (Raised e, w2)
         | (Returned (chunks, e), w2) \<Rightarrow>
             (case consume chunks [] w2 of
                (new_content, w3) \<Rightarrow>
                  (if e = Broken then (Raised StreamError, w3)
                   else (case write_text full_path new_content w3 of
                           (Raised e, w4) \<Rightarrow> (Raised e, w4)
                         | (Returned _, w4) \<Rightarrow>
                             (Returned (),
                              print (FileDone file_path (action_verb existing_content)) w4)))))"

definition process_file ::
  "services \<Rightarrow> path \<Rightarrow> ustring \<Rightarrow> ustring \<Rightarrow> ustring \<Rightarrow> ustring \<Rightarrow> world \<Rightarrow>
   unit result \<times> world" where
  \<comment> \<open>the body of the loop of line 73\<close>
  "process_file env project_path project_type description model file_path w =
     (let full_path = joinpath project_path (Path file_path) in
      case mkdir (parent full_path) w of
        (Raised e, w1) \<Rightarrow> (Raised e, w1)
      | (Returned _, w1) \<Rightarrow>
          (case read_existing full_path w1 of
             (Raised e, w2) \<Rightarrow> (Raised e, w2)
           | (Returned existing_content, w2) \<Rightarrow>
               generate env project_type description model file_path full_path
                 existing_content w2))"

subsection \<open>The whole run\<close>

fun process_files ::
  "services \<Rightarrow> path \<Rightarrow> ustring \<Rightarrow> ustring \<Rightarrow> ustring \<Rightarrow> ustring list \<Rightarrow> world \<Rightarrow>
   unit result \<times> world" where
  \<comment> \<open>the loop of line 73: the first exception ends it\<close>
  "process_files env project_path project_type description model [] w = (Returned (), w)"
| "process_files env project_path project_type description model (file_path # files) w =
     (case process_file env project_path project_type description model file_path w of
        (Raised e, w1) \<Rightarrow> (Raised e, w1)
      | (Returned _, w1) \<Rightarrow>
          process_files env project_path project_type description model files w1)"

definition ensure_repository :: "services \<Rightarrow> path \<Rightarrow> bool \<Rightarrow> world \<Rightarrow> unit result \<times> world" where
  \<comment> \<open>lines 68-70\<close>
  "ensure_repository env project_path is_new_project w =
     (if is_new_project \<or> \<not> exists (disk w) (joinpath project_path (Path dot_git))
      then subprocess_run env GitInit project_path (print InitialisingRepository w)
      else (Returned (), w))"

definition commit_all :: "services \<Rightarrow> path \<Rightarrow> ustring \<Rightarrow> world \<Rightarrow> unit result \<times> world" where
  \<comment> \<open>lines 121-123\<close>
  "commit_all env project_path commit_message w =
     (case subprocess_run env GitAddAll project_path (print Committing w) of
        (Raised e, w1) \<Rightarrow> (Raised e, w1)
      | (Returned _, w1) \<Rightarrow> subprocess_run env (GitCommit commit_message) project_path w1)"

definition project_verb :: "bool \<Rightarrow> ustring" where
  \<comment> \<open>line 125\<close>
  "project_verb is_new_project = (if is_new_project then verb_create else verb_modify)"

definition in_project ::
  "services \<Rightarrow> path \<Rightarrow> bool \<Rightarrow> ustring \<Rightarrow> ustring \<Rightarrow> ustring list \<Rightarrow> ustring \<Rightarrow> ustring \<Rightarrow>
   world \<Rightarrow> unit result \<times> world" where
  \<comment> \<open>lines 67-125, once the project directory is there\<close>
  "in_project env project_path is_new_project project_type description files commit_message
     model w =
     (case ensure_repository env project_path is_new_project w of
        (Raised e, w1) \<Rightarrow> (Raised e, w1)
      | (Returned _, w1) \<Rightarrow>
          (case process_files env project_path project_type description model files w1 of
             (Raised e, w2) \<Rightarrow> (Raised e, w2)
           | (Returned _, w2) \<Rightarrow>
               (case commit_all env project_path commit_message w2 of
                  (Raised e, w3) \<Rightarrow> (Raised e, w3)
                | (Returned _, w3) \<Rightarrow>
                    (Returned (), print (ProjectDone (project_verb is_new_project)) w3))))"

definition create_or_modify_project ::
  "services \<Rightarrow> path \<Rightarrow> ustring \<Rightarrow> ustring \<Rightarrow> ustring \<Rightarrow> ustring list \<Rightarrow> ustring \<Rightarrow> ustring \<Rightarrow>
   world \<Rightarrow> unit result \<times> world" where
  \<comment> \<open>lines 35-125; \<open>cwd\<close> is the current directory of the process\<close>
  "create_or_modify_project env cwd path project_type description files commit_message model w =
     (let project_path = resolve cwd (Path path) in
      if \<not> exists (disk w) project_path then
        (case mkdir project_path (print (CreatingDirectory project_path) w) of
           (Raised e, w1) \<Rightarrow> (Raised e, w1)
         | (Returned _, w1) \<Rightarrow>
             in_project env project_path True project_type description files commit_message
               model w1)
      else if \<not> is_dir (disk w) project_path then
        (Returned (), print (NotADirectory project_path) w)
      else
        in_project env project_path False project_type description files commit_message
          model w)"

text \<open>
  The command line, parsed: \<^verbatim>\<open>--path\<close>, \<^verbatim>\<open>--type\<close>, \<^verbatim>\<open>--description\<close>, \<^verbatim>\<open>--files\<close>
  (one or more), \<^verbatim>\<open>--message\<close> and \<^verbatim>\<open>--model\<close> with its default filled in.
\<close>

record args =
  path_arg :: ustring
  type_arg :: ustring
  description_arg :: ustring
  files_arg :: "ustring list"
  message_arg :: ustring
  model_arg :: ustring

definition main :: "services \<Rightarrow> path \<Rightarrow> args \<Rightarrow> world \<Rightarrow> unit result \<times> world" where
  \<comment> \<open>lines 128-148\<close>
  "main env cwd a w =
     create_or_modify_project env cwd (path_arg a) (type_arg a) (description_arg a)
       (files_arg a) (message_arg a) (model_arg a) w"

definition script :: "services \<Rightarrow> path \<Rightarrow> ustring option \<Rightarrow> args \<Rightarrow> world \<Rightarrow> nat \<times> world" where
  \<comment> \<open>the module run as a script, giving the exit status of the process: lines 27-30
      with \<open>OPENAI_API_KEY\<close> the value of \<^verbatim>\<open>os.getenv\<close> after \<^verbatim>\<open>load_dotenv()\<close>
      (\<open>None\<close> when unset), then \<^verbatim>\<open>main()\<close>; an exception nobody catches ends the
      process with status 1\<close>
  "script env cwd OPENAI_API_KEY a w =
     (if OPENAI_API_KEY = None \<or> OPENAI_API_KEY = Some [] then (1, print MissingKey w)
      else (case main env cwd a w of
              (Returned _, w1) \<Rightarrow> (0, w1)
            | (Raised e, w1) \<Rightarrow> (1, w1)))"

subsection \<open>Vocabulary of the properties\<close>

text \<open>
  What a run did, read off its trace: the model requests, the files opened for writing
  and the \<^verbatim>\<open>git\<close> commands, in the order they happened. Messages, directory
  creation and reads are left out.
\<close>

datatype action = Requested | Wrote "ustring list" | Ran git_cmd

fun action_of :: "event \<Rightarrow> action list" where
  "action_of (ChatCompletionCreate model prompt) = [Requested]"
| "action_of (WriteFile p s) = [Wrote p]"
| "action_of (SubprocessRun cmd dir) = [Ran cmd]"
| "action_of (Stdout m) = []"
| "action_of (MkdirParents p) = []"
| "action_of (ReadFile p) = []"

definition actions :: "event list \<Rightarrow> action list" where
  "actions es = concat (map action_of es)"

definition canonical :: "ustring list \<Rightarrow> bool" where
  \<comment> \<open>no \<^verbatim>\<open>..\<close> component is left\<close>
  "canonical p = (dotdot \<notin> set p)"

definition new_dirs_only :: "filesystem \<Rightarrow> filesystem \<Rightarrow> bool" where
  \<comment> \<open>the second file system is the first with some directories more\<close>
  "new_dirs_only fs fs' = (\<forall>q. fs' q = fs q \<or> (fs q = None \<and> fs' q = Some Dir))"

definition keeps_dirs :: "filesystem \<Rightarrow> filesystem \<Rightarrow> bool" where
  \<comment> \<open>every directory of the first file system is a directory of the second\<close>
  "keeps_dirs fs fs' = (\<forall>q. fs q = Some Dir \<longrightarrow> fs' q = Some Dir)"

definition changes_within :: "filesystem \<Rightarrow> ustring list set \<Rightarrow> filesystem \<Rightarrow> bool" where
  \<comment> \<open>the second file system differs from the first at most by new directories on the
      way to the parent of one of the paths \<open>ps\<close>, and by text files, new or
      overwritten, that one of the paths \<open>ps\<close> denotes\<close>
  "changes_within fs ps fs' =
     (\<forall>q. fs' q = fs q
        \<or> (fs q = None \<and> fs' q = Some Dir
            \<and> (\<exists>p\<in>ps. \<exists>k\<le>length (parent p). walk fs' [] (take k (parent p)) = Inr q))
        \<or> (fs q \<noteq> Some Dir \<and> (\<exists>s. fs' q = Some (File (Text s)))
            \<and> (\<exists>p\<in>ps. walk fs' [] p = Inr q)))"

definition file_actions :: "path \<Rightarrow> ustring \<Rightarrow> action list" where
  \<comment> \<open>what a file of the list asks for: one request, then one write to its path\<close>
  "file_actions project_path file_path = [Requested, Wrote (joinpath project_path (Path file_path))]"

definition planned :: "path \<Rightarrow> ustring list \<Rightarrow> action list" where
  \<comment> \<open>the same for the whole list, file after file\<close>
  "planned project_path files = concat (map (file_actions project_path) files)"

fun prompt_of :: "event \<Rightarrow> (ustring \<times> ustring) list" where
  "prompt_of (ChatCompletionCreate model prompt) = [(model, prompt)]"
| "prompt_of (WriteFile p s) = []"
| "prompt_of (SubprocessRun cmd dir) = []"
| "prompt_of (Stdout m) = []"
| "prompt_of (MkdirParents p) = []"
| "prompt_of (ReadFile p) = []"

definition prompts :: "event list \<Rightarrow> (ustring \<times> ustring) list" where
  \<comment> \<open>the requests of a trace: model name and prompt of each, in order\<close>
  "prompts es = concat (map prompt_of es)"

definition made_new :: "filesystem \<Rightarrow> ustring list \<Rightarrow> bool" where
  \<comment> \<open>nothing is at the path, and the directory can be made: the project is new\<close>
  "made_new fs project_path =
     (\<not> exists fs project_path
      \<and> (case mkdir_parents fs project_path of Inr _ \<Rightarrow> True | Inl _ \<Rightarrow> False))"

subsection \<open>Worlds and services to run the script on\<close>

definition world_of :: "filesystem \<Rightarrow> world" where
  "world_of d = \<lparr>disk = d, staged = Map.empty, commits = [], requests = 0, trace = []\<rparr>"

definition hi_chunk :: chunk where
  \<comment> \<open>a chunk with the text \<^verbatim>\<open>hi\<close>\<close>
  "hi_chunk = Chunk (Some [Choice (Some (Delta (Some [104, 105])))])"

definition answering :: "response \<Rightarrow> nat \<Rightarrow> services" where
  \<comment> \<open>the model answers every request with \<open>r\<close>, \<^verbatim>\<open>git commit\<close> exits with \<open>status\<close>,
      every other \<^verbatim>\<open>git\<close> command with 0\<close>
  "answering r status =
     \<lparr>chat_completion = (\<lambda>n model prompt. r),
      git_exit = (\<lambda>cmd. case cmd of GitCommit m \<Rightarrow> status | _ \<Rightarrow> 0)\<rparr>"


definition file_a_disk :: filesystem where
  \<comment> \<open>the root directory with an empty regular file \<^verbatim>\<open>a\<close> in it\<close>
  "file_a_disk = [[] \<mapsto> Dir, [[97]] \<mapsto> File (Text [])]"

definition demo_services :: services where
  "demo_services = answering (Stream [hi_chunk] EndOfStream) 0"

definition demo_args :: args where
  \<comment> \<open>\<^verbatim>\<open>--path a --type p --description d --files f --message m --model g\<close>\<close>
  "demo_args = \<lparr>path_arg = [97], type_arg = [112], description_arg = [100],
                 files_arg = [[102]], message_arg = [109], model_arg = [103]\<rparr>"

definition project_disk :: filesystem where
  \<comment> \<open>the root directory with a project directory \<^verbatim>\<open>a\<close> under version control\<close>
  "project_disk = [[] \<mapsto> Dir, [[97]] \<mapsto> Dir, [[97], dot_git] \<mapsto> Dir]"

definition empty_file_disk :: filesystem where
  \<comment> \<open>the same with an empty file \<^verbatim>\<open>a/f\<close>\<close>
  "empty_file_disk = project_disk([[97], [102]] \<mapsto> File (Text []))"

definition crlf_file_disk :: filesystem where
  \<comment> \<open>the same with a file \<^verbatim>\<open>a/f\<close> of one line \<^verbatim>\<open>x\<close>, ended by carriage return
      and line feed\<close>
  "crlf_file_disk = project_disk([[97], [102]] \<mapsto> File (Text [120, 13, 10]))"

definition root_disk :: filesystem where
  \<comment> \<open>nothing but the root directory\<close>
  "root_disk = [[] \<mapsto> Dir]"

definition refusing_services :: services where
  \<comment> \<open>the model service refuses every request\<close>
  "refusing_services = answering RequestFailed 0"

definition uncommitting_services :: services where
  \<comment> \<open>the model answers, \<^verbatim>\<open>git commit\<close> fails with status 1\<close>
  "uncommitting_services = answering (Stream [hi_chunk] EndOfStream) 1"

section \<open>Properties\<close>

subsection \<open>Path resolution and directory creation\<close>

declare mkdir_parents.simps [simp del]

lemma actions_append: "actions (xs @ ys) = actions xs @ actions ys"
  by (simp add: actions_def)

lemma actions_Nil: "actions [] = []"
  by (simp add: actions_def)

lemma walk_append:
  "walk fs cur (xs @ ys) = (case walk fs cur xs of Inl e \<Rightarrow> Inl e | Inr q \<Rightarrow> walk fs q ys)"
  by (induction xs arbitrary: cur) (auto split: option.splits node.splits)

lemma walk_keeps_dirs:
  "keeps_dirs fs fs' \<Longrightarrow> walk fs cur cs = Inr q \<Longrightarrow> walk fs' cur cs = Inr q"
proof (induction cs arbitrary: cur)
  case Nil
  then show ?case by simp
next
  case (Cons c cs)
  from Cons.prems(2) have d: "fs cur = Some Dir"
    by (auto split: option.splits node.splits)
  with Cons.prems(1) have d': "fs' cur = Some Dir"
    by (simp add: keeps_dirs_def)
  from Cons.prems(2) d have "walk fs (if c = dotdot then butlast cur else cur @ [c]) cs = Inr q"
    by simp
  with Cons.IH Cons.prems(1) have "walk fs' (if c = dotdot then butlast cur else cur @ [c]) cs = Inr q"
    by blast
  with d' show ?case by simp
qed

lemma keeps_dirs_refl: "keeps_dirs fs fs"
  by (simp add: keeps_dirs_def)

lemma keeps_dirs_trans: "keeps_dirs a b \<Longrightarrow> keeps_dirs b c \<Longrightarrow> keeps_dirs a c"
  by (simp add: keeps_dirs_def)

lemma new_dirs_only_refl: "new_dirs_only fs fs"
  by (simp add: new_dirs_only_def)

lemma new_dirs_only_trans:
  "new_dirs_only a b \<Longrightarrow> new_dirs_only b c \<Longrightarrow> new_dirs_only a c"
  unfolding new_dirs_only_def by metis

lemma new_dirs_only_keeps: "new_dirs_only fs fs' \<Longrightarrow> keeps_dirs fs fs'"
  unfolding new_dirs_only_def keeps_dirs_def by (metis option.distinct(1))

lemma os_mkdir_Inr:
  "os_mkdir fs p = Inr fs' \<Longrightarrow> \<exists>q. walk fs [] p = Inr q \<and> fs q = None \<and> fs' = fs(q \<mapsto> Dir)"
  by (auto simp: os_mkdir_def split: sum.splits option.splits)

lemma new_dirs_only_upd: "fs q = None \<Longrightarrow> new_dirs_only fs (fs(q \<mapsto> Dir))"
  by (simp add: new_dirs_only_def)

lemma os_mkdir_new_dirs: "os_mkdir fs p = Inr fs' \<Longrightarrow> new_dirs_only fs fs'"
  by (auto dest!: os_mkdir_Inr simp: new_dirs_only_upd)

lemma os_mkdir_is_dir: "os_mkdir fs p = Inr fs' \<Longrightarrow> is_dir fs' p"
proof -
  assume "os_mkdir fs p = Inr fs'"
  then obtain q where q: "walk fs [] p = Inr q" "fs q = None" "fs' = fs(q \<mapsto> Dir)"
    by (auto dest!: os_mkdir_Inr)
  then have "keeps_dirs fs fs'"
    by (simp add: new_dirs_only_keeps new_dirs_only_upd)
  then have "walk fs' [] p = Inr q"
    using q(1) by (rule walk_keeps_dirs)
  with q(3) show ?thesis
    by (simp add: is_dir_def stat_def)
qed

lemma mkdir_parents_new_dirs: "mkdir_parents fs p = Inr fs' \<Longrightarrow> new_dirs_only fs fs'"
proof (induction fs p arbitrary: fs' rule: mkdir_parents.induct)
  case (1 fs p)
  show ?case
  proof (cases "os_mkdir fs p")
    case (Inr a)
    with "1.prems" show ?thesis
      by (simp add: mkdir_parents.simps [of fs p] os_mkdir_new_dirs)
  next
    case (Inl e)
    show ?thesis
    proof (cases "e = ENOENT")
      case False
      with Inl "1.prems" show ?thesis
        by (cases e) (auto simp: mkdir_parents.simps [of fs p] new_dirs_only_refl split: if_splits)
    next
      case True
      with Inl "1.prems" have ne: "p \<noteq> []"
        by (auto simp: mkdir_parents.simps [of fs p] split: if_splits)
      with Inl True "1.prems" obtain fs1 where fs1: "mkdir_parents fs (butlast p) = Inr fs1"
        by (auto simp: mkdir_parents.simps [of fs p] split: sum.splits)
      with "1.IH" Inl True ne have g1: "new_dirs_only fs fs1"
        by blast
      from Inl True ne fs1 "1.prems" have "fs' = fs1 \<or> os_mkdir fs1 p = Inr fs'"
        by (auto simp: mkdir_parents.simps [of fs p] split: sum.splits errno.splits if_splits)
      then show ?thesis
        using g1 by (auto dest: os_mkdir_new_dirs new_dirs_only_trans)
    qed
  qed
qed

lemma mkdir_parents_is_dir: "mkdir_parents fs p = Inr fs' \<Longrightarrow> is_dir fs' p"
  by (subst (asm) mkdir_parents.simps)
     (auto split: sum.splits errno.splits if_splits dest: os_mkdir_is_dir)


subsection \<open>What each operation does to the world\<close>

lemma consume_eq:
  "consume chunks acc w =
     (acc @ concat (map chunk_content chunks),
      w\<lparr>trace := trace w @ map (\<lambda>s. Stdout (Fragment s))
                             (filter (\<lambda>s. s \<noteq> []) (map chunk_content chunks))\<rparr>)"
proof (induction chunks arbitrary: acc w)
  case Nil
  show ?case by simp
next
  case (Cons ch chs)
  show ?case by (simp add: Cons.IH print_def log_def)
qed

lemma actions_fragments: "actions (map (\<lambda>s. Stdout (Fragment s)) xs) = []"
  by (induction xs) (simp_all add: actions_def)

lemma mkdir_effect:
  assumes "mkdir p w = (r, w')"
  shows "trace w' = trace w @ [MkdirParents p]"
    and "new_dirs_only (disk w) (disk w')"
    and "staged w' = staged w" and "commits w' = commits w" and "requests w' = requests w"
    and "r = Returned () \<Longrightarrow> is_dir (disk w') p"
  using assms
  by (auto simp: mkdir_def log_def Let_def new_dirs_only_refl
           split: sum.splits dest: mkdir_parents_new_dirs mkdir_parents_is_dir)

lemma read_text_effect:
  assumes "read_text p w = (r, w')"
  shows "w' = w\<lparr>trace := trace w @ [ReadFile p]\<rparr>"
  using assms
  by (auto simp: read_text_def log_def Let_def split: sum.splits node.splits contents.splits)

lemma read_existing_effect:
  assumes "read_existing p w = (r, w')"
  shows "disk w' = disk w" and "staged w' = staged w" and "commits w' = commits w"
    and "requests w' = requests w" and "actions (trace w') = actions (trace w)"
  using assms
  by (auto simp: read_existing_def actions_def split: if_splits dest!: read_text_effect)

lemma read_existing_Returned:
  "read_existing p w = (Returned s, w') \<Longrightarrow>
     s = (case stat (disk w) p of Inr (File (Text t)) \<Rightarrow> universal_newlines t | _ \<Rightarrow> [])
     \<and> (\<forall>b. stat (disk w) p \<noteq> Inr (File (Bytes b))) \<and> stat (disk w) p \<noteq> Inr Dir"
  by (auto simp: read_existing_def read_text_def exists_def log_def Let_def
           split: if_splits sum.splits node.splits contents.splits)

lemma write_text_Returned:
  assumes "write_text p s w = (Returned (), w')"
  shows "\<exists>q. walk (disk w) [] p = Inr q \<and> disk w q \<noteq> Some Dir
             \<and> w' = w\<lparr>trace := trace w @ [WriteFile p s], disk := (disk w)(q \<mapsto> File (Text s))\<rparr>"
  using assms
  by (auto simp: write_text_def log_def Let_def
           split: sum.splits option.splits node.splits if_splits)

lemma write_text_effect:
  assumes "write_text p s w = (r, w')"
  shows "trace w' = trace w @ [WriteFile p s]"
    and "staged w' = staged w" and "commits w' = commits w" and "requests w' = requests w"
    and "disk w' = disk w \<or>
         (\<exists>q t. walk (disk w) [] p = Inr q \<and> disk w q \<noteq> Some Dir
                \<and> disk w' = (disk w)(q \<mapsto> File (Text t)))"
  using assms
  by (auto simp: write_text_def log_def Let_def
           split: sum.splits option.splits node.splits if_splits)

lemma keeps_dirs_upd: "fs q \<noteq> Some Dir \<Longrightarrow> keeps_dirs fs (fs(q \<mapsto> n))"
  by (auto simp: keeps_dirs_def)

lemma stat_written:
  "walk fs [] p = Inr q \<Longrightarrow> fs q \<noteq> Some Dir \<Longrightarrow> stat (fs(q \<mapsto> n)) p = Inr n"
  using walk_keeps_dirs [OF keeps_dirs_upd, of fs q "[]" p q n]
  by (simp add: stat_def)

lemma subprocess_run_effect:
  assumes "subprocess_run env cmd dir w = (r, w')"
  shows "trace w' = trace w @ [SubprocessRun cmd dir]"
    and "requests w' = requests w"
    and "r = Returned () \<longleftrightarrow> git_exit env cmd = 0"
    and "r \<noteq> Returned () \<Longrightarrow> w' = log (SubprocessRun cmd dir) w"
    and "r = Returned () \<Longrightarrow> w' = git_effect cmd dir (log (SubprocessRun cmd dir) w)"
  using assms
  by (auto simp: subprocess_run_def log_def Let_def git_effect_def split: if_splits git_cmd.splits)


subsection \<open>Evaluating paths and the example worlds\<close>

lemma Path_a: "Path [97] = PurePath False [[97]]"
  by (simp add: Path_def slash_def dot_def)

lemma resolve_a: "resolve [] (Path [97]) = [[97]]"
  by (simp add: Path_a resolve_def normpath_def dotdot_def)

lemma stat_file_a: "stat (disk (world_of file_a_disk)) [[97]] = Inr (File (Text []))"
  by (simp add: world_of_def file_a_disk_def stat_def dotdot_def)

subsection \<open>The two explicit checks\<close>

text \<open>
  C6. With the credential unset the script prints its diagnostic and exits with status 1:
  the world it leaves is the world it found with that one message more on the trace, so
  no directory is made, no file written, no request sent and no \<^verbatim>\<open>git\<close> command run.
\<close>

theorem missing_credential_exits:
  "script env cwd None a w = (1, w\<lparr>trace := trace w @ [Stdout MissingKey]\<rparr>)"
  by (simp add: script_def print_def log_def)

text \<open>
  C5. When the target path is a regular file, the function reports the error and returns
  at once: the world it leaves is the world it found with the error message on the
  trace. No directory is made, no file read or written, no \<^verbatim>\<open>git\<close> command run.
\<close>

theorem regular_file_target_aborts:
  assumes "stat (disk w) (resolve cwd (Path path)) = Inr (File c)"
  shows "create_or_modify_project env cwd path project_type description files commit_message
           model w
         = (Returned (),
            w\<lparr>trace := trace w @ [Stdout (NotADirectory (resolve cwd (Path path)))]\<rparr>)"
  using assms by (simp add: create_or_modify_project_def exists_def is_dir_def print_def log_def)

theorem regular_file_target_aborts_witness:
  "stat (disk (world_of file_a_disk)) (resolve [] (Path [97])) = Inr (File (Text []))
   \<and> create_or_modify_project demo_services [] [97] [112] [100] [[102]] [109] [103]
       (world_of file_a_disk)
     = (Returned (),
        (world_of file_a_disk)\<lparr>trace := trace (world_of file_a_disk)
           @ [Stdout (NotADirectory (resolve [] (Path [97])))]\<rparr>)"
proof -
  have h: "stat (disk (world_of file_a_disk)) (resolve [] (Path [97])) = Inr (File (Text []))"
    by (simp add: resolve_a stat_file_a)
  show ?thesis
    using h regular_file_target_aborts [OF h] by simp
qed

text \<open>
  C9. When the target path exists and is not a directory, \<open>main\<close> returns normally, with
  the error message printed and nothing else done, and the process ends with exit
  status 0.
\<close>

theorem not_a_directory_exit_status:
  assumes "exists (disk w) (resolve cwd (Path (path_arg a)))"
    and "\<not> is_dir (disk w) (resolve cwd (Path (path_arg a)))"
    and "key \<noteq> []"
  shows "main env cwd a w
           = (Returned (), print (NotADirectory (resolve cwd (Path (path_arg a)))) w)
         \<and> fst (script env cwd (Some key) a w) = 0"
  using assms by (simp add: script_def main_def create_or_modify_project_def)

theorem not_a_directory_exit_status_witness:
  "exists (disk (world_of file_a_disk)) (resolve [] (Path (path_arg demo_args)))
   \<and> \<not> is_dir (disk (world_of file_a_disk)) (resolve [] (Path (path_arg demo_args)))
   \<and> fst (script demo_services [] (Some [107]) demo_args (world_of file_a_disk)) = 0"
proof -
  have e: "exists (disk (world_of file_a_disk)) (resolve [] (Path (path_arg demo_args)))"
    by (simp add: demo_args_def resolve_a exists_def stat_file_a)
  have d: "\<not> is_dir (disk (world_of file_a_disk)) (resolve [] (Path (path_arg demo_args)))"
    by (simp add: demo_args_def resolve_a is_dir_def stat_file_a)
  have k: "[107::nat] \<noteq> []"
    by simp
  show ?thesis
    using e d not_a_directory_exit_status [OF e d k, of demo_services] by simp
qed


subsection \<open>One file\<close>

lemma create_stream_effect:
  assumes "create_stream env model prompt w = (r, w')"
  shows "w' = w\<lparr>requests := Suc (requests w), trace := trace w @ [ChatCompletionCreate model prompt]\<rparr>"
    and "r = (case chat_completion env (requests w) model prompt of
                RequestFailed \<Rightarrow> Raised APIError
              | Stream chunks e \<Rightarrow> Returned (chunks, e))"
  using assms by (auto simp: create_stream_def log_def Let_def split: response.splits)

text \<open>The world in which the stream of a file has been consumed.\<close>

lemma generate_unfold:
  "generate env project_type description model file_path full_path existing_content w =
     (case chat_completion env (requests w) model
             (build_prompt project_type description file_path existing_content) of
        RequestFailed \<Rightarrow>
          (Raised APIError,
           w\<lparr>requests := Suc (requests w),
             trace := trace w @ [Stdout (FileStarted (action_verb existing_content) file_path),
               ChatCompletionCreate model
                 (build_prompt project_type description file_path existing_content)]\<rparr>)
      | Stream chunks e \<Rightarrow>
          (let w3 = w\<lparr>requests := Suc (requests w),
                      trace := trace w @ [Stdout (FileStarted (action_verb existing_content) file_path),
                        ChatCompletionCreate model
                          (build_prompt project_type description file_path existing_content)]
                        @ map (\<lambda>s. Stdout (Fragment s))
                            (filter (\<lambda>s. s \<noteq> []) (map chunk_content chunks))\<rparr>
           in if e = Broken then (Raised StreamError, w3)
              else (case write_text full_path (concat (map chunk_content chunks)) w3 of
                      (Raised e, w4) \<Rightarrow> (Raised e, w4)
                    | (Returned _, w4) \<Rightarrow>
                        (Returned (),
                         print (FileDone file_path (action_verb existing_content)) w4))))"
  by (simp add: generate_def create_stream_def consume_eq print_def log_def Let_def
           split: response.splits)

subsection \<open>What changes on the disk\<close>

lemma os_mkdir_changes:
  assumes "os_mkdir fs p = Inr fs'" and "fs' q \<noteq> fs q"
  shows "fs q = None \<and> fs' q = Some Dir \<and> walk fs' [] p = Inr q"
proof -
  from assms(1) obtain t where t: "walk fs [] p = Inr t" "fs t = None" "fs' = fs(t \<mapsto> Dir)"
    by (auto dest!: os_mkdir_Inr)
  with assms(2) have "q = t"
    by (auto split: if_splits)
  moreover have "keeps_dirs fs fs'"
    using t by (simp add: new_dirs_only_keeps new_dirs_only_upd)
  then have "walk fs' [] p = Inr t"
    using t(1) by (rule walk_keeps_dirs)
  ultimately show ?thesis
    using t by simp
qed

lemma take_butlast_le: "k \<le> length (butlast p) \<Longrightarrow> take k (butlast p) = take k p"
  by (simp add: take_butlast butlast_conv_take)

lemma mkdir_parents_changes:
  "mkdir_parents fs p = Inr fs' \<Longrightarrow> fs' q \<noteq> fs q \<Longrightarrow>
     fs q = None \<and> fs' q = Some Dir \<and> (\<exists>k\<le>length p. walk fs' [] (take k p) = Inr q)"
proof (induction fs p arbitrary: fs' rule: mkdir_parents.induct)
  case (1 fs p)
  show ?case
  proof (cases "os_mkdir fs p")
    case (Inr a)
    with "1.prems" have "os_mkdir fs p = Inr fs'"
      by (simp add: mkdir_parents.simps [of fs p])
    from os_mkdir_changes [OF this "1.prems"(2)] show ?thesis
      by (intro conjI exI [of _ "length p"]) auto
  next
    case (Inl e)
    show ?thesis
    proof (cases "e = ENOENT")
      case False
      with Inl "1.prems" show ?thesis
        by (cases e) (auto simp: mkdir_parents.simps [of fs p] split: if_splits)
    next
      case True
      with Inl "1.prems" have ne: "p \<noteq> []"
        by (auto simp: mkdir_parents.simps [of fs p] split: if_splits)
      with Inl True "1.prems" obtain fs1 where fs1: "mkdir_parents fs (butlast p) = Inr fs1"
        by (auto simp: mkdir_parents.simps [of fs p] split: sum.splits)
      from Inl True ne fs1 "1.prems" have alt: "fs' = fs1 \<or> os_mkdir fs1 p = Inr fs'"
        by (auto simp: mkdir_parents.simps [of fs p] split: sum.splits errno.splits if_splits)
      have kd: "keeps_dirs fs1 fs'"
        using alt by (auto simp: keeps_dirs_refl dest: os_mkdir_new_dirs new_dirs_only_keeps)
      show ?thesis
      proof (cases "fs1 q = fs q")
        case True
        with "1.prems"(2) alt have "os_mkdir fs1 p = Inr fs'" and "fs' q \<noteq> fs1 q"
          by auto
        from os_mkdir_changes [OF this] True show ?thesis
          by (intro conjI exI [of _ "length p"]) auto
      next
        case False
        with "1.IH" [OF Inl True ne fs1] obtain k where
          k: "fs q = None" "fs1 q = Some Dir" "k \<le> length (butlast p)"
             "walk fs1 [] (take k (butlast p)) = Inr q"
          by blast
        from kd k(2) have "fs' q = Some Dir"
          by (simp add: keeps_dirs_def)
        moreover from k(3,4) have "walk fs1 [] (take k p) = Inr q"
          by (simp add: take_butlast_le)
        with kd have "walk fs' [] (take k p) = Inr q"
          by (rule walk_keeps_dirs)
        moreover from k(3) have "k \<le> length p"
          by simp
        ultimately show ?thesis
          using k(1) by blast
      qed
    qed
  qed
qed

lemma changes_within_refl: "changes_within fs ps fs"
  by (simp add: changes_within_def)

lemma changes_within_keeps_dirs: "changes_within fs ps fs' \<Longrightarrow> keeps_dirs fs fs'"
  unfolding changes_within_def keeps_dirs_def by (metis option.distinct(1))

lemma changes_within_mono:
  assumes "changes_within fs ps fs'" and "ps \<subseteq> ps'"
  shows "changes_within fs ps' fs'"
  unfolding changes_within_def
proof
  fix q
  from assms(1) have
    "fs' q = fs q
     \<or> (fs q = None \<and> fs' q = Some Dir
         \<and> (\<exists>p\<in>ps. \<exists>k\<le>length (parent p). walk fs' [] (take k (parent p)) = Inr q))
     \<or> (fs q \<noteq> Some Dir \<and> (\<exists>s. fs' q = Some (File (Text s)))
         \<and> (\<exists>p\<in>ps. walk fs' [] p = Inr q))"
    by (simp add: changes_within_def)
  with assms(2) show
    "fs' q = fs q
     \<or> (fs q = None \<and> fs' q = Some Dir
         \<and> (\<exists>p\<in>ps'. \<exists>k\<le>length (parent p). walk fs' [] (take k (parent p)) = Inr q))
     \<or> (fs q \<noteq> Some Dir \<and> (\<exists>s. fs' q = Some (File (Text s)))
         \<and> (\<exists>p\<in>ps'. walk fs' [] p = Inr q))"
    by blast
qed

lemma changes_within_trans:
  assumes ab: "changes_within a ps b" and bc: "changes_within b ps c"
  shows "changes_within a ps c"
  unfolding changes_within_def
proof
  fix q
  have kd: "keeps_dirs b c"
    using bc by (rule changes_within_keeps_dirs)
  have lift: "\<And>p t. walk b [] p = Inr t \<Longrightarrow> walk c [] p = Inr t"
    using kd by (rule walk_keeps_dirs)
  from ab have A:
    "b q = a q
     \<or> (a q = None \<and> b q = Some Dir
         \<and> (\<exists>p\<in>ps. \<exists>k\<le>length (parent p). walk b [] (take k (parent p)) = Inr q))
     \<or> (a q \<noteq> Some Dir \<and> (\<exists>s. b q = Some (File (Text s)))
         \<and> (\<exists>p\<in>ps. walk b [] p = Inr q))"
    by (simp add: changes_within_def)
  from bc have B:
    "c q = b q
     \<or> (b q = None \<and> c q = Some Dir
         \<and> (\<exists>p\<in>ps. \<exists>k\<le>length (parent p). walk c [] (take k (parent p)) = Inr q))
     \<or> (b q \<noteq> Some Dir \<and> (\<exists>s. c q = Some (File (Text s)))
         \<and> (\<exists>p\<in>ps. walk c [] p = Inr q))"
    by (simp add: changes_within_def)
  show
    "c q = a q
     \<or> (a q = None \<and> c q = Some Dir
         \<and> (\<exists>p\<in>ps. \<exists>k\<le>length (parent p). walk c [] (take k (parent p)) = Inr q))
     \<or> (a q \<noteq> Some Dir \<and> (\<exists>s. c q = Some (File (Text s)))
         \<and> (\<exists>p\<in>ps. walk c [] p = Inr q))"
  proof (cases "c q = b q")
    case True
    from A consider
        (same) "b q = a q"
      | (made) p k where "a q = None" "b q = Some Dir" "p \<in> ps" "k \<le> length (parent p)"
          "walk b [] (take k (parent p)) = Inr q"
      | (wrote) s p where "a q \<noteq> Some Dir" "b q = Some (File (Text s))" "p \<in> ps"
          "walk b [] p = Inr q"
      by blast
    then show ?thesis
    proof cases
      case same
      with True show ?thesis by simp
    next
      case made
      from made(5) have "walk c [] (take k (parent p)) = Inr q"
        by (rule lift)
      with made True show ?thesis by auto
    next
      case wrote
      from wrote(4) have "walk c [] p = Inr q"
        by (rule lift)
      with wrote True show ?thesis by auto
    qed
  next
    case False
    have dir_a: "b q \<noteq> Some Dir \<Longrightarrow> a q \<noteq> Some Dir"
      using A by auto
    have none_a: "b q = None \<Longrightarrow> a q = None"
      using A by auto
    define D where
      "D = (\<exists>p\<in>ps. \<exists>k\<le>length (parent p). walk c [] (take k (parent p)) = Inr q)"
    define F where "F = (\<exists>p\<in>ps. walk c [] p = Inr q)"
    define T where "T = (\<exists>s. c q = Some (File (Text s)))"
    from B False have "(b q = None \<and> c q = Some Dir \<and> D) \<or> (b q \<noteq> Some Dir \<and> T \<and> F)"
      unfolding D_def F_def T_def by simp
    then show ?thesis
    proof
      assume "b q = None \<and> c q = Some Dir \<and> D"
      with none_a have "a q = None \<and> c q = Some Dir \<and> D"
        by simp
      then show ?thesis
        unfolding D_def by simp
    next
      assume "b q \<noteq> Some Dir \<and> T \<and> F"
      with dir_a have "a q \<noteq> Some Dir \<and> T \<and> F"
        by simp
      then show ?thesis
        unfolding T_def F_def by simp
    qed
  qed
qed


lemma mkdir_changes_within:
  assumes "mkdir (parent full_path) w = (r, w')"
  shows "changes_within (disk w) {full_path} (disk w')"
proof (cases "mkdir_parents (disk w) (parent full_path)")
  case (Inl e)
  with assms have "disk w' = disk w"
    by (auto simp: mkdir_def log_def Let_def)
  then show ?thesis
    by (simp add: changes_within_refl)
next
  case (Inr fs')
  with assms have d: "disk w' = fs'"
    by (auto simp: mkdir_def log_def Let_def)
  show ?thesis
    unfolding changes_within_def d
  proof
    fix q
    show "fs' q = disk w q
      \<or> (disk w q = None \<and> fs' q = Some Dir
          \<and> (\<exists>p\<in>{full_path}. \<exists>k\<le>length (parent p). walk fs' [] (take k (parent p)) = Inr q))
      \<or> (disk w q \<noteq> Some Dir \<and> (\<exists>s. fs' q = Some (File (Text s)))
          \<and> (\<exists>p\<in>{full_path}. walk fs' [] p = Inr q))"
      using mkdir_parents_changes [OF Inr, of q] by (cases "fs' q = disk w q") simp_all
  qed
qed

lemma write_changes_within:
  assumes "walk fs [] p = Inr q" and "fs q \<noteq> Some Dir"
  shows "changes_within fs {p} (fs(q \<mapsto> File (Text t)))"
proof -
  have "walk (fs(q \<mapsto> File (Text t))) [] p = Inr q"
    using walk_keeps_dirs [OF keeps_dirs_upd assms(1)] assms(2) by blast
  with assms(2) show ?thesis
    by (auto simp: changes_within_def)
qed

lemma write_text_changes_within:
  assumes "write_text p s w = (r, w')"
  shows "changes_within (disk w) {p} (disk w')"
  using write_text_effect(5) [OF assms]
  by (auto simp: changes_within_refl write_changes_within)

lemma ending_cases: "e \<noteq> Broken \<Longrightarrow> e = EndOfStream"
  by (cases e) simp_all

lemma generate_cases:
  assumes "generate env project_type description model file_path full_path existing_content w
             = (r, w')"
  obtains
    (failed) "r = Raised APIError" "disk w' = disk w"
      "actions (trace w') = actions (trace w) @ [Requested]"
  | (broken) "r = Raised StreamError" "disk w' = disk w"
      "actions (trace w') = actions (trace w) @ [Requested]"
  | (written) chunks w3 r4 w4 where
      "chat_completion env (requests w) model
         (build_prompt project_type description file_path existing_content)
       = Stream chunks EndOfStream"
      "disk w3 = disk w" "actions (trace w3) = actions (trace w) @ [Requested]"
      "write_text full_path (concat (map chunk_content chunks)) w3 = (r4, w4)"
      "r = r4" "disk w' = disk w4" "actions (trace w') = actions (trace w4)"
proof (cases "chat_completion env (requests w) model
                (build_prompt project_type description file_path existing_content)")
  case RequestFailed
  with assms have "r = Raised APIError" "disk w' = disk w"
    "actions (trace w') = actions (trace w) @ [Requested]"
    by (auto simp: generate_unfold actions_def)
  then show ?thesis by (rule failed)
next
  case (Stream chunks e)
  define w3 where "w3 = w\<lparr>requests := Suc (requests w),
      trace := trace w @ [Stdout (FileStarted (action_verb existing_content) file_path),
        ChatCompletionCreate model
          (build_prompt project_type description file_path existing_content)]
        @ map (\<lambda>s. Stdout (Fragment s)) (filter (\<lambda>s. s \<noteq> []) (map chunk_content chunks))\<rparr>"
  have w3: "disk w3 = disk w" "actions (trace w3) = actions (trace w) @ [Requested]"
    by (simp_all add: w3_def actions_append actions_fragments) (simp add: actions_def)
  show ?thesis
  proof (cases "e = Broken")
    case True
    have "generate env project_type description model file_path full_path existing_content w
            = (Raised StreamError, w3)"
      unfolding generate_unfold Stream True w3_def by simp
    with assms have "r = Raised StreamError" "w' = w3"
      by simp_all
    with w3 show ?thesis by (auto intro: broken)
  next
    case False
    then have e: "e = EndOfStream" by (rule ending_cases)
    obtain r4 w4 where w4: "write_text full_path (concat (map chunk_content chunks)) w3 = (r4, w4)"
      by (cases "write_text full_path (concat (map chunk_content chunks)) w3") auto
    have "generate env project_type description model file_path full_path existing_content w
            = (case write_text full_path (concat (map chunk_content chunks)) w3 of
                 (Raised e, w4) \<Rightarrow> (Raised e, w4)
               | (Returned _, w4) \<Rightarrow>
                   (Returned (), print (FileDone file_path (action_verb existing_content)) w4))"
      unfolding generate_unfold Stream e w3_def by simp
    with assms w4 have "r = r4"
      "disk w' = disk w4" "actions (trace w') = actions (trace w4)"
      by (auto simp: print_def log_def actions_def split: result.splits)
    with Stream e w3 w4 show ?thesis by (auto intro: written)
  qed
qed

lemma generate_request:
  assumes "generate env project_type description model file_path full_path existing_content w
             = (r, w')"
  shows "\<exists>rest. trace w' = trace w
           @ [Stdout (FileStarted (action_verb existing_content) file_path),
              ChatCompletionCreate model
                (build_prompt project_type description file_path existing_content)] @ rest"
  using assms
  by (auto simp: generate_unfold Let_def print_def log_def
           split: response.splits if_splits prod.splits result.splits
           dest!: write_text_effect(1))

lemma generate_state:
  assumes "generate env project_type description model file_path full_path existing_content w
             = (r, w')"
  shows "staged w' = staged w" and "commits w' = commits w"
    and "requests w' = Suc (requests w)"
  using assms
  by (auto simp: generate_unfold Let_def print_def log_def
           split: response.splits if_splits prod.splits result.splits
           dest: write_text_effect)

lemma generate_disk:
  assumes "generate env project_type description model file_path full_path existing_content w
             = (r, w')"
  shows "changes_within (disk w) {full_path} (disk w')"
  using assms
proof (cases rule: generate_cases)
  case (written chunks w3 r4 w4)
  from write_text_changes_within [OF written(4)] written(2,6) show ?thesis
    by simp
qed (simp_all add: changes_within_refl)

lemma generate_actions:
  assumes "generate env project_type description model file_path full_path existing_content w
             = (r, w')"
  shows "(actions (trace w') = actions (trace w) @ [Requested]
          \<or> actions (trace w') = actions (trace w) @ [Requested, Wrote full_path])
         \<and> (r = Returned () \<longrightarrow>
              actions (trace w') = actions (trace w) @ [Requested, Wrote full_path])"
  using assms
proof (cases rule: generate_cases)
  case (written chunks w3 r4 w4)
  from write_text_effect(1) [OF written(4)] written(3,7)
  have "actions (trace w') = actions (trace w) @ [Requested, Wrote full_path]"
    by (simp add: actions_append) (simp add: actions_def)
  then show ?thesis
    by simp
qed simp_all

lemma generate_Returned:
  assumes "generate env project_type description model file_path full_path existing_content w
             = (Returned (), w')"
  shows "\<exists>chunks. chat_completion env (requests w) model
                     (build_prompt project_type description file_path existing_content)
                   = Stream chunks EndOfStream
           \<and> stat (disk w') full_path = Inr (File (Text (concat (map chunk_content chunks))))"
  using assms
proof (cases rule: generate_cases)
  case (written chunks w3 r4 w4)
  from written(4,5) obtain q where "walk (disk w3) [] full_path = Inr q"
    "disk w3 q \<noteq> Some Dir"
    "disk w4 = (disk w3)(q \<mapsto> File (Text (concat (map chunk_content chunks))))"
    by (auto dest!: write_text_Returned)
  with written(6) have "stat (disk w') full_path = Inr (File (Text (concat (map chunk_content chunks))))"
    by (simp add: stat_written)
  with written(1) show ?thesis by blast
qed simp_all

lemma generate_failed:
  assumes "generate env project_type description model file_path full_path existing_content w
             = (r, w')"
    and "r = Raised APIError \<or> r = Raised StreamError"
  shows "disk w' = disk w \<and> actions (trace w') = actions (trace w) @ [Requested]"
  using assms(1)
proof (cases rule: generate_cases)
  case (written chunks w3 r4 w4)
  with assms(2) have False
    by (auto simp: write_text_def Let_def
             split: sum.splits option.splits node.splits if_splits)
  then show ?thesis
    by simp
qed simp_all


lemma process_file_cases:
  assumes "process_file env project_path project_type description model file_path w = (r, w')"
  obtains
    (mkdir_raised) e where "r = Raised (OSError e)"
      "mkdir (parent (joinpath project_path (Path file_path))) w = (Raised (OSError e), w')"
  | (read_raised) e w1 where "r = Raised e" "e \<noteq> APIError" "e \<noteq> StreamError"
      "mkdir (parent (joinpath project_path (Path file_path))) w = (Returned (), w1)"
      "read_existing (joinpath project_path (Path file_path)) w1 = (Raised e, w')"
  | (generated) w1 existing_content w2 where
      "mkdir (parent (joinpath project_path (Path file_path))) w = (Returned (), w1)"
      "read_existing (joinpath project_path (Path file_path)) w1 = (Returned existing_content, w2)"
      "generate env project_type description model file_path
         (joinpath project_path (Path file_path)) existing_content w2 = (r, w')"
proof -
  let ?full = "joinpath project_path (Path file_path)"
  obtain r1 w1 where m: "mkdir (parent ?full) w = (r1, w1)"
    by (cases "mkdir (parent ?full) w") auto
  show ?thesis
  proof (cases r1)
    case (Raised e)
    with m obtain e' where "e = OSError e'"
      by (auto simp: mkdir_def Let_def split: sum.splits)
    with Raised m assms show ?thesis
      by (auto simp: process_file_def Let_def intro: mkdir_raised)
  next
    case (Returned u)
    obtain r2 w2 where rd: "read_existing ?full w1 = (r2, w2)"
      by (cases "read_existing ?full w1") auto
    show ?thesis
    proof (cases r2)
      case (Raised e)
      with rd have "e \<noteq> APIError" "e \<noteq> StreamError"
        by (auto simp: read_existing_def read_text_def Let_def
                 split: if_splits sum.splits node.splits contents.splits)
      with Raised Returned m rd assms show ?thesis
        by (auto simp: process_file_def Let_def intro: read_raised)
    next
      case (Returned existing_content)
      with \<open>r1 = Returned u\<close> m rd assms show ?thesis
        by (auto simp: process_file_def Let_def intro: generated)
    qed
  qed
qed

lemma process_file_state:
  assumes "process_file env project_path project_type description model file_path w = (r, w')"
  shows "staged w' = staged w \<and> commits w' = commits w"
  using assms
proof (cases rule: process_file_cases)
  case (mkdir_raised e)
  then show ?thesis by (simp add: mkdir_effect)
next
  case (read_raised e w1)
  then show ?thesis by (simp add: mkdir_effect read_existing_effect)
next
  case (generated w1 existing_content w2)
  then show ?thesis by (simp add: mkdir_effect read_existing_effect generate_state)
qed

lemma process_file_disk:
  assumes "process_file env project_path project_type description model file_path w = (r, w')"
  shows "changes_within (disk w) {joinpath project_path (Path file_path)} (disk w')"
  using assms
proof (cases rule: process_file_cases)
  case (mkdir_raised e)
  then show ?thesis by (simp add: mkdir_changes_within)
next
  case (read_raised e w1)
  then show ?thesis
    using mkdir_changes_within [OF read_raised(4)] by (simp add: read_existing_effect)
next
  case (generated w1 existing_content w2)
  from mkdir_changes_within [OF generated(1)] generate_disk [OF generated(3)]
  show ?thesis
    by (auto simp: read_existing_effect(1) [OF generated(2)] intro: changes_within_trans)
qed

lemma process_file_actions:
  assumes "process_file env project_path project_type description model file_path w = (r, w')"
  shows "\<exists>acts rest. actions (trace w') = actions (trace w) @ acts
           \<and> file_actions project_path file_path = acts @ rest
           \<and> (r = Returned () \<longrightarrow> rest = [])"
  using assms
proof (cases rule: process_file_cases)
  case (mkdir_raised e)
  then have "actions (trace w') = actions (trace w) @ []"
    by (simp add: mkdir_effect actions_append) (simp add: actions_def)
  with mkdir_raised(1) show ?thesis
    by (intro exI [of _ "[]"] exI [of _ "file_actions project_path file_path"]) simp
next
  case (read_raised e w1)
  then have "actions (trace w') = actions (trace w) @ []"
    by (simp add: mkdir_effect read_existing_effect actions_append) (simp add: actions_def)
  with read_raised(1) show ?thesis
    by (intro exI [of _ "[]"] exI [of _ "file_actions project_path file_path"]) simp
next
  case (generated w1 existing_content w2)
  have "actions (trace w2) = actions (trace w)"
    using generated(1,2)
    by (simp add: mkdir_effect read_existing_effect actions_append) (simp add: actions_def)
  with generate_actions [OF generated(3)] show ?thesis
    by (auto simp: file_actions_def)
qed

lemma process_file_Returned:
  assumes "process_file env project_path project_type description model file_path w
             = (Returned (), w')"
  shows "\<exists>prompt chunks.
           chat_completion env (requests w) model prompt = Stream chunks EndOfStream
           \<and> stat (disk w') (joinpath project_path (Path file_path))
               = Inr (File (Text (concat (map chunk_content chunks))))"
  using assms
proof (cases rule: process_file_cases)
  case (generated w1 existing_content w2)
  have "requests w2 = requests w"
    using generated(1,2) by (simp add: mkdir_effect read_existing_effect)
  with generate_Returned [OF generated(3)] show ?thesis
    by auto
qed simp_all

lemma process_file_failed:
  assumes "process_file env project_path project_type description model file_path w = (r, w')"
    and "r = Raised APIError \<or> r = Raised StreamError"
  shows "new_dirs_only (disk w) (disk w')
         \<and> actions (trace w') = actions (trace w) @ [Requested]"
  using assms(1)
proof (cases rule: process_file_cases)
  case (mkdir_raised e)
  with assms(2) show ?thesis by auto
next
  case (read_raised e w1)
  with assms(2) show ?thesis by auto
next
  case (generated w1 existing_content w2)
  have "actions (trace w2) = actions (trace w)" "new_dirs_only (disk w) (disk w2)"
    using generated(1,2)
    by (simp_all add: mkdir_effect read_existing_effect actions_append) (simp add: actions_def)
  with generate_failed [OF generated(3) assms(2)] show ?thesis
    by simp
qed

subsection \<open>The loop over the files\<close>

lemma process_files_append:
  "process_files env project_path project_type description model (xs @ ys) w =
     (case process_files env project_path project_type description model xs w of
        (Raised e, w1) \<Rightarrow> (Raised e, w1)
      | (Returned _, w1) \<Rightarrow>
          process_files env project_path project_type description model ys w1)"
  by (induction xs arbitrary: w) (auto split: prod.splits result.splits)

lemma process_files_state:
  "process_files env project_path project_type description model files w = (r, w') \<Longrightarrow>
     staged w' = staged w \<and> commits w' = commits w"
proof (induction files arbitrary: w)
  case Nil
  then show ?case by simp
next
  case (Cons f files)
  obtain r1 w1 where s: "process_file env project_path project_type description model f w = (r1, w1)"
    by (cases "process_file env project_path project_type description model f w") auto
  from process_file_state [OF s] Cons s show ?case
    by (cases r1) auto
qed

lemma process_files_disk:
  "process_files env project_path project_type description model files w = (r, w') \<Longrightarrow>
     changes_within (disk w) ((\<lambda>f. joinpath project_path (Path f)) ` set files) (disk w')"
proof (induction files arbitrary: w)
  case Nil
  then show ?case by (simp add: changes_within_refl)
next
  case (Cons f files)
  let ?ps = "(\<lambda>f. joinpath project_path (Path f)) ` set (f # files)"
  obtain r1 w1 where s: "process_file env project_path project_type description model f w = (r1, w1)"
    by (cases "process_file env project_path project_type description model f w") auto
  have one: "changes_within (disk w) ?ps (disk w1)"
    by (rule changes_within_mono [OF process_file_disk [OF s]]) simp
  show ?case
  proof (cases r1)
    case (Raised e)
    with s Cons.prems one show ?thesis by auto
  next
    case (Returned u)
    with s Cons.prems have "process_files env project_path project_type description model files w1 = (r, w')"
      by simp
    from Cons.IH [OF this] have "changes_within (disk w1) ?ps (disk w')"
      by (rule changes_within_mono) auto
    with one show ?thesis
      by (rule changes_within_trans)
  qed
qed

lemma process_files_actions:
  "process_files env project_path project_type description model files w = (r, w') \<Longrightarrow>
     \<exists>acts rest. actions (trace w') = actions (trace w) @ acts
       \<and> planned project_path files = acts @ rest
       \<and> (r = Returned () \<longrightarrow> rest = [])"
proof (induction files arbitrary: w)
  case Nil
  then show ?case by (simp add: planned_def)
next
  case (Cons f files)
  obtain r1 w1 where s: "process_file env project_path project_type description model f w = (r1, w1)"
    by (cases "process_file env project_path project_type description model f w") auto
  from process_file_actions [OF s] obtain acts1 rest1 where
    a1: "actions (trace w1) = actions (trace w) @ acts1"
        "file_actions project_path f = acts1 @ rest1" "r1 = Returned () \<longrightarrow> rest1 = []"
    by blast
  show ?case
  proof (cases r1)
    case (Raised e)
    with s Cons.prems have "r = Raised e" "w' = w1" by auto
    with a1 show ?thesis
      by (intro exI [of _ acts1] exI [of _ "rest1 @ planned project_path files"])
         (simp add: planned_def)
  next
    case (Returned u)
    with s Cons.prems have "process_files env project_path project_type description model files w1 = (r, w')"
      by simp
    from Cons.IH [OF this] obtain acts rest where
      a: "actions (trace w') = actions (trace w1) @ acts"
         "planned project_path files = acts @ rest" "r = Returned () \<longrightarrow> rest = []"
      by blast
    from a1 Returned have "file_actions project_path f = acts1"
      by simp
    with a a1(1) show ?thesis
      by (intro exI [of _ "acts1 @ acts"] exI [of _ rest]) (simp add: planned_def)
  qed
qed


subsection \<open>Steps that succeed\<close>

lemma prompts_append: "prompts (xs @ ys) = prompts xs @ prompts ys"
  by (simp add: prompts_def)

lemma prompts_fragments: "prompts (map (\<lambda>s. Stdout (Fragment s)) xs) = []"
  by (induction xs) (simp_all add: prompts_def)

lemma mkdir_parents_existing: "is_dir fs p \<Longrightarrow> mkdir_parents fs p = Inr fs"
  by (subst mkdir_parents.simps)
     (auto simp: os_mkdir_def is_dir_def stat_def split: sum.splits option.splits node.splits)

lemma mkdir_existing: "is_dir (disk w) p \<Longrightarrow> mkdir p w = (Returned (), log (MkdirParents p) w)"
  by (simp add: mkdir_def Let_def log_def mkdir_parents_existing)

lemma read_existing_absent: "\<not> exists (disk w) p \<Longrightarrow> read_existing p w = (Returned [], w)"
  by (simp add: read_existing_def)

lemma read_existing_text:
  "stat (disk w) p = Inr (File (Text t)) \<Longrightarrow>
     read_existing p w = (Returned (universal_newlines t), log (ReadFile p) w)"
  by (simp add: read_existing_def read_text_def exists_def log_def Let_def)

lemma write_text_succeeds:
  assumes "walk (disk w) [] p = Inr q" and "disk w q \<noteq> Some Dir" and "encodable s"
  shows "write_text p s w
           = (Returned (), w\<lparr>trace := trace w @ [WriteFile p s],
                              disk := (disk w)(q \<mapsto> File (Text s))\<rparr>)"
  using assms
  by (auto simp: write_text_def log_def Let_def split: option.splits node.splits)

lemma generate_succeeds:
  assumes "chat_completion env (requests w) model
             (build_prompt project_type description file_path existing_content)
           = Stream chunks EndOfStream"
    and "walk (disk w) [] full_path = Inr q" and "disk w q \<noteq> Some Dir"
    and "encodable (concat (map chunk_content chunks))"
  shows "fst (generate env project_type description model file_path full_path
                existing_content w) = Returned ()"
  using assms
  by (simp add: generate_unfold Let_def write_text_succeeds)

lemma generate_prompts:
  assumes "generate env project_type description model file_path full_path existing_content w
             = (r, w')"
  shows "prompts (trace w') = prompts (trace w)
           @ [(model, build_prompt project_type description file_path existing_content)]"
proof -
  from generate_request [OF assms] obtain rest where
    t: "trace w' = trace w
           @ [Stdout (FileStarted (action_verb existing_content) file_path),
              ChatCompletionCreate model
                (build_prompt project_type description file_path existing_content)] @ rest"
    by blast
  have "prompts rest = []"
    using assms t
    by (auto simp: generate_unfold Let_def print_def log_def prompts_append prompts_fragments
             split: response.splits if_splits prod.splits result.splits
             dest!: write_text_effect(1))
       (simp_all add: prompts_def)
  with t show ?thesis
    by (simp add: prompts_append) (simp add: prompts_def)
qed

lemma process_file_prompts:
  assumes "process_file env project_path project_type description model file_path w = (r, w')"
  shows "prompts (trace w') = prompts (trace w)
         \<or> (\<exists>w1 existing_content.
               mkdir (parent (joinpath project_path (Path file_path))) w = (Returned (), w1)
               \<and> existing_content
                   = (case stat (disk w1) (joinpath project_path (Path file_path)) of
                        Inr (File (Text t)) \<Rightarrow> universal_newlines t
                      | _ \<Rightarrow> [])
               \<and> (\<forall>b. stat (disk w1) (joinpath project_path (Path file_path))
                         \<noteq> Inr (File (Bytes b)))
               \<and> stat (disk w1) (joinpath project_path (Path file_path)) \<noteq> Inr Dir
               \<and> prompts (trace w') = prompts (trace w)
                   @ [(model, build_prompt project_type description file_path existing_content)])"
  using assms
proof (cases rule: process_file_cases)
  case (mkdir_raised e)
  then show ?thesis
    by (simp add: mkdir_effect prompts_append) (simp add: prompts_def)
next
  case (read_raised e w1)
  then have "prompts (trace w') = prompts (trace w)"
    by (auto simp: mkdir_effect prompts_append read_existing_def split: if_splits
             dest!: read_text_effect)
       (simp_all add: prompts_def)
  then show ?thesis by simp
next
  case (generated w1 existing_content w2)
  from generated(2) have "prompts (trace w2) = prompts (trace w1)"
    by (auto simp: read_existing_def prompts_append split: if_splits dest!: read_text_effect)
       (simp add: prompts_def)
  with generated(1) have "prompts (trace w2) = prompts (trace w)"
    by (simp add: mkdir_effect prompts_append) (simp add: prompts_def)
  with generate_prompts [OF generated(3)] read_existing_Returned [OF generated(2)] generated(1)
  show ?thesis
    by auto
qed

lemma process_file_in_directory:
  assumes "is_dir (disk w) (parent (joinpath project_path (Path file_path)))"
  shows "process_file env project_path project_type description model file_path w =
           (case read_existing (joinpath project_path (Path file_path))
                   (log (MkdirParents (parent (joinpath project_path (Path file_path)))) w) of
              (Raised e, w2) \<Rightarrow> (Raised e, w2)
            | (Returned existing_content, w2) \<Rightarrow>
                generate env project_type description model file_path
                  (joinpath project_path (Path file_path)) existing_content w2)"
  using assms by (simp add: process_file_def Let_def mkdir_existing)

lemma universal_newlines_Nil: "universal_newlines t = [] \<longleftrightarrow> t = []"
  by (induction t rule: universal_newlines.induct) auto


subsection \<open>The example worlds, evaluated\<close>

lemma Path_f: "Path [102] = PurePath False [[102]]"
  by (simp add: Path_def slash_def dot_def)

lemma full_path_f: "joinpath [[97]] (Path [102]) = [[97], [102]]"
  by (simp add: Path_f joinpath_def)

lemma demo_answer:
  "chat_completion demo_services n model prompt = Stream [hi_chunk] EndOfStream"
  by (simp add: demo_services_def answering_def)

lemma hi_content: "chunk_content hi_chunk = [104, 105]"
  by (simp add: hi_chunk_def)

lemma project_disk_simps:
  "project_disk [] = Some Dir" "project_disk [[97]] = Some Dir"
  "project_disk [[97], [102]] = None"
  by (simp_all add: project_disk_def dot_git_def)

lemma walk_project_f: "walk project_disk [] [[97], [102]] = Inr [[97], [102]]"
  by (simp add: project_disk_simps dotdot_def)

lemma walk_project_a: "walk project_disk [] [[97]] = Inr [[97]]"
  by (simp add: project_disk_simps dotdot_def)

lemma is_dir_project_a: "is_dir project_disk [[97]]"
  by (simp add: is_dir_def stat_def walk_project_a project_disk_simps del: walk.simps)

lemma not_exists_project_f: "\<not> exists project_disk [[97], [102]]"
  by (simp add: exists_def stat_def walk_project_f project_disk_simps del: walk.simps)

lemma keeps_project_dirs: "keeps_dirs project_disk (project_disk([[97], [102]] \<mapsto> n))"
  by (rule keeps_dirs_upd) (simp add: project_disk_simps)

lemma walk_over_project:
  "walk project_disk [] p = Inr q \<Longrightarrow> walk (project_disk([[97], [102]] \<mapsto> n)) [] p = Inr q"
  by (rule walk_keeps_dirs [OF keeps_project_dirs])

lemma is_dir_file_disk_a: "is_dir (project_disk([[97], [102]] \<mapsto> n)) [[97]]"
  by (simp add: is_dir_def stat_def walk_over_project [OF walk_project_a] project_disk_simps
           del: walk.simps)

lemma stat_file_disk_f: "stat (project_disk([[97], [102]] \<mapsto> n)) [[97], [102]] = Inr n"
  by (simp add: stat_def walk_over_project [OF walk_project_f] del: walk.simps)


lemma process_file_succeeds_new:
  assumes "is_dir (disk w) (parent (joinpath project_path (Path file_path)))"
    and "walk (disk w) [] (joinpath project_path (Path file_path)) = Inr q"
    and "disk w q = None"
    and "chat_completion env (requests w) model
           (build_prompt project_type description file_path []) = Stream chunks EndOfStream"
    and "encodable (concat (map chunk_content chunks))"
  shows "fst (process_file env project_path project_type description model file_path w)
           = Returned ()"
proof -
  let ?full = "joinpath project_path (Path file_path)"
  let ?w1 = "log (MkdirParents (parent ?full)) w"
  have "\<not> exists (disk ?w1) ?full"
    using assms(2,3) by (simp add: log_def exists_def stat_def)
  then have "read_existing ?full ?w1 = (Returned [], ?w1)"
    by (rule read_existing_absent)
  then have "process_file env project_path project_type description model file_path w
               = generate env project_type description model file_path ?full [] ?w1"
    by (simp add: process_file_in_directory [OF assms(1)])
  moreover have "fst (generate env project_type description model file_path ?full [] ?w1)
                   = Returned ()"
    using assms(2-5) by (intro generate_succeeds [where q = q]) (simp_all add: log_def)
  ultimately show ?thesis
    by simp
qed

lemma process_file_demo_returns:
  "fst (process_file demo_services [[97]] [112] [100] [103] [102] (world_of project_disk))
     = Returned ()"
  by (rule process_file_succeeds_new [where q = "[[97], [102]]" and chunks = "[hi_chunk]"])
     (simp_all add: full_path_f parent_def world_of_def is_dir_project_a walk_project_f
        project_disk_simps demo_answer hi_content encodable_def del: walk.simps)




lemma verbs_differ: "verb_create \<noteq> verb_modify"
  by (simp add: verb_create_def verb_modify_def)

lemma append_one_neq: "xs \<noteq> xs @ [y]"
  by simp

lemma process_file_demo_prompt:
  assumes "stat d [[97], [102]] = Inr (File (Text t))" and "is_dir d [[97]]"
  shows "prompts (trace (snd (process_file demo_services [[97]] [112] [100] [103] [102]
            (world_of d))))
         = [([103], build_prompt [112] [100] [102] (universal_newlines t))]"
proof -
  let ?w1 = "log (MkdirParents [[97]]) (world_of d)"
  let ?w2 = "log (ReadFile [[97], [102]]) ?w1"
  have "stat (disk ?w1) [[97], [102]] = Inr (File (Text t))"
    using assms(1) by (simp add: log_def world_of_def)
  then have "read_existing [[97], [102]] ?w1 = (Returned (universal_newlines t), ?w2)"
    by (rule read_existing_text)
  moreover have "is_dir (disk (world_of d)) (parent (joinpath [[97]] (Path [102])))"
    using assms(2) by (simp add: full_path_f parent_def world_of_def)
  ultimately have "process_file demo_services [[97]] [112] [100] [103] [102] (world_of d)
      = generate demo_services [112] [100] [103] [102] [[97], [102]] (universal_newlines t) ?w2"
    by (simp add: process_file_in_directory full_path_f parent_def)
  moreover have "prompts (trace ?w2) = []"
    by (simp add: log_def world_of_def prompts_def)
  ultimately show ?thesis
    using generate_prompts [of demo_services "[112]" "[100]" "[103]" "[102]" "[[97], [102]]"
        "universal_newlines t" ?w2]
    by (simp add: prod_eq_iff)
qed

text \<open>
  C1, as amended. When the step for a file sends a request, the parent directories have
  been made and the prompt is the text of lines 86-95 around the project type, a verb,
  the description, the file path, a sentence and the prior text. The prior text is what
  the script then finds at the path: the text of the file read in text mode (a carriage
  return, together with a line feed directly after it if there is one, read as one line
  feed), or no text when nothing is there. Verb and sentence say "create", and the
  prompt carries no prior text, exactly when there is no file or the file is empty; they
  say "modify" exactly when the file holds some text, and then the prompt carries that
  text as read.
\<close>

theorem prompt_verb_follows_prior_text:
  assumes "process_file env project_path project_type description model file_path w = (r, w')"
    and "prompts (trace w') = prompts (trace w) @ [(m, prompt)]"
  shows "\<exists>w1 existing_content verb sentence.
           mkdir (parent (joinpath project_path (Path file_path))) w = (Returned (), w1)
           \<and> m = model
           \<and> prompt =
               [10, 20320, 30340, 20219, 21153, 26159, 20026, 19968, 20010] @ project_type
               @ [39033, 30446] @ verb
               @ [25991, 20214, 12290, 10, 10, 39033, 30446, 25551, 36848, 58, 32] @ description
               @ [10, 25991, 20214, 36335, 24452, 58, 32] @ file_path
               @ [10, 10] @ sentence
               @ [10, 10] @ existing_content
               @ [10]
           \<and> existing_content
               = (case stat (disk w1) (joinpath project_path (Path file_path)) of
                    Inr (File (Text t)) \<Rightarrow> universal_newlines t
                  | _ \<Rightarrow> [])
           \<and> (verb = [21019, 24314]
                \<and> sentence = [35831, 29983, 25104, 36866, 21512, 35813, 25991, 20214, 36335,
                               24452, 30340, 20869, 23481, 58]
                \<and> existing_content = []
              \<or> verb = [20462, 25913]
                \<and> sentence = [20197, 19979, 26159, 29616, 26377, 25991, 20214, 20869, 23481,
                               65292, 35831, 22312, 38656, 35201, 30340, 22320, 26041, 36827,
                               34892, 20462, 25913, 58]
                \<and> existing_content \<noteq> [])
           \<and> (verb = [21019, 24314]
                \<longleftrightarrow> \<not> exists (disk w1) (joinpath project_path (Path file_path))
                    \<or> stat (disk w1) (joinpath project_path (Path file_path))
                        = Inr (File (Text [])))
           \<and> (verb = [20462, 25913]
                \<longleftrightarrow> (\<exists>t. t \<noteq> []
                         \<and> stat (disk w1) (joinpath project_path (Path file_path))
                             = Inr (File (Text t))))"
proof -
  let ?full = "joinpath project_path (Path file_path)"
  from process_file_prompts [OF assms(1)] assms(2) obtain w1 existing_content where
    h: "mkdir (parent ?full) w = (Returned (), w1)"
       "existing_content
          = (case stat (disk w1) ?full of Inr (File (Text t)) \<Rightarrow> universal_newlines t | _ \<Rightarrow> [])"
       "\<forall>b. stat (disk w1) ?full \<noteq> Inr (File (Bytes b))"
       "stat (disk w1) ?full \<noteq> Inr Dir"
       "prompts (trace w') = prompts (trace w)
          @ [(model, build_prompt project_type description file_path existing_content)]"
    by (auto simp: append_one_neq [symmetric])
  from h(5) assms(2) have mp: "m = model"
    "prompt = build_prompt project_type description file_path existing_content"
    by simp_all
  have empty: "existing_content = []
      \<longleftrightarrow> \<not> exists (disk w1) ?full \<or> stat (disk w1) ?full = Inr (File (Text []))"
    using h(2,3,4)
    by (auto simp: exists_def universal_newlines_Nil
             split: sum.splits node.splits contents.splits)
  have nonempty: "existing_content \<noteq> []
      \<longleftrightarrow> (\<exists>t. t \<noteq> [] \<and> stat (disk w1) ?full = Inr (File (Text t)))"
    using h(2,3,4)
    by (auto simp: exists_def universal_newlines_Nil
             split: sum.splits node.splits contents.splits)
  have shape: "prompt =
               [10, 20320, 30340, 20219, 21153, 26159, 20026, 19968, 20010] @ project_type
               @ [39033, 30446] @ action_verb existing_content
               @ [25991, 20214, 12290, 10, 10, 39033, 30446, 25551, 36848, 58, 32] @ description
               @ [10, 25991, 20214, 36335, 24452, 58, 32] @ file_path
               @ [10, 10] @ instruction existing_content
               @ [10, 10] @ existing_content
               @ [10]"
    unfolding mp(2) build_prompt_def by (rule refl)
  have words: "action_verb existing_content = [21019, 24314]
                \<and> instruction existing_content
                    = [35831, 29983, 25104, 36866, 21512, 35813, 25991, 20214, 36335,
                       24452, 30340, 20869, 23481, 58]
                \<and> existing_content = []
              \<or> action_verb existing_content = [20462, 25913]
                \<and> instruction existing_content
                    = [20197, 19979, 26159, 29616, 26377, 25991, 20214, 20869, 23481,
                       65292, 35831, 22312, 38656, 35201, 30340, 22320, 26041, 36827,
                       34892, 20462, 25913, 58]
                \<and> existing_content \<noteq> []"
    by (simp add: action_verb_def instruction_def verb_create_def verb_modify_def
          instruction_create_def instruction_modify_def)
  have create: "action_verb existing_content = [21019, 24314] \<longleftrightarrow> existing_content = []"
    and modify: "action_verb existing_content = [20462, 25913] \<longleftrightarrow> existing_content \<noteq> []"
    by (simp_all add: action_verb_def verb_create_def verb_modify_def)
  show ?thesis
    using h(1,2) mp(1) shape words create modify empty nonempty
    by (intro exI [of _ w1] exI [of _ existing_content]
          exI [of _ "action_verb existing_content"] exI [of _ "instruction existing_content"])
       simp
qed

theorem prompt_verb_follows_prior_text_witness:
  "(\<exists>w1. mkdir (parent (joinpath [[97]] (Path [102]))) (world_of crlf_file_disk)
           = (Returned (), w1)
         \<and> stat (disk w1) (joinpath [[97]] (Path [102])) = Inr (File (Text [120, 13, 10])))
   \<and> prompts (trace (snd (process_file demo_services [[97]] [112] [100] [103] [102]
        (world_of crlf_file_disk))))
     = [([103],
         [10, 20320, 30340, 20219, 21153, 26159, 20026, 19968, 20010, 112, 39033, 30446,
          20462, 25913, 25991, 20214, 12290, 10, 10, 39033, 30446, 25551, 36848, 58, 32, 100,
          10, 25991, 20214, 36335, 24452, 58, 32, 102, 10, 10, 20197, 19979, 26159, 29616,
          26377, 25991, 20214, 20869, 23481, 65292, 35831, 22312, 38656, 35201, 30340, 22320,
          26041, 36827, 34892, 20462, 25913, 58, 10, 10, 120, 10, 10])]"
proof -
  let ?run = "process_file demo_services [[97]] [112] [100] [103] [102] (world_of crlf_file_disk)"
  let ?w1 = "log (MkdirParents [[97]]) (world_of crlf_file_disk)"
  have p: "prompts (trace (snd ?run))
     = prompts (trace (world_of crlf_file_disk))
       @ [([103], build_prompt [112] [100] [102] [120, 10])]"
    using process_file_demo_prompt [of crlf_file_disk "[120, 13, 10]"]
    by (simp add: crlf_file_disk_def stat_file_disk_f is_dir_file_disk_a world_of_def prompts_def)
  have run: "?run = (fst ?run, snd ?run)"
    by simp
  have m: "mkdir (parent (joinpath [[97]] (Path [102]))) (world_of crlf_file_disk)
        = (Returned (), ?w1)"
    by (simp add: full_path_f parent_def mkdir_existing world_of_def crlf_file_disk_def
          is_dir_file_disk_a)
  have st: "stat (disk ?w1) (joinpath [[97]] (Path [102])) = Inr (File (Text [120, 13, 10]))"
    by (simp add: log_def world_of_def crlf_file_disk_def stat_file_disk_f full_path_f)
  from prompt_verb_follows_prior_text [OF run p] obtain w1 existing_content verb sentence where
    t: "mkdir (parent (joinpath [[97]] (Path [102]))) (world_of crlf_file_disk)
          = (Returned (), w1)"
       "build_prompt [112] [100] [102] [120, 10] =
               [10, 20320, 30340, 20219, 21153, 26159, 20026, 19968, 20010] @ [112]
               @ [39033, 30446] @ verb
               @ [25991, 20214, 12290, 10, 10, 39033, 30446, 25551, 36848, 58, 32] @ [100]
               @ [10, 25991, 20214, 36335, 24452, 58, 32] @ [102]
               @ [10, 10] @ sentence
               @ [10, 10] @ existing_content
               @ [10]"
       "existing_content
          = (case stat (disk w1) (joinpath [[97]] (Path [102])) of
               Inr (File (Text t)) \<Rightarrow> universal_newlines t
             | _ \<Rightarrow> [])"
       "verb = [21019, 24314]
          \<and> sentence = [35831, 29983, 25104, 36866, 21512, 35813, 25991, 20214, 36335,
                         24452, 30340, 20869, 23481, 58]
          \<and> existing_content = []
        \<or> verb = [20462, 25913]
          \<and> sentence = [20197, 19979, 26159, 29616, 26377, 25991, 20214, 20869, 23481,
                         65292, 35831, 22312, 38656, 35201, 30340, 22320, 26041, 36827,
                         34892, 20462, 25913, 58]
          \<and> existing_content \<noteq> []"
    by blast
  from t(1) m have "w1 = ?w1"
    by simp
  with t(3) st have e: "existing_content = [120, 10]"
    by simp
  with t(4) have "verb = [20462, 25913]"
    "sentence = [20197, 19979, 26159, 29616, 26377, 25991, 20214, 20869, 23481,
                 65292, 35831, 22312, 38656, 35201, 30340, 22320, 26041, 36827,
                 34892, 20462, 25913, 58]"
    by simp_all
  with t(2) e have "build_prompt [112] [100] [102] [120, 10] =
         [10, 20320, 30340, 20219, 21153, 26159, 20026, 19968, 20010, 112, 39033, 30446,
          20462, 25913, 25991, 20214, 12290, 10, 10, 39033, 30446, 25551, 36848, 58, 32, 100,
          10, 25991, 20214, 36335, 24452, 58, 32, 102, 10, 10, 20197, 19979, 26159, 29616,
          26377, 25991, 20214, 20869, 23481, 65292, 35831, 22312, 38656, 35201, 30340, 22320,
          26041, 36827, 34892, 20462, 25913, 58, 10, 10, 120, 10, 10]"
    by simp
  with p have "prompts (trace (snd ?run)) =
     [([103],
         [10, 20320, 30340, 20219, 21153, 26159, 20026, 19968, 20010, 112, 39033, 30446,
          20462, 25913, 25991, 20214, 12290, 10, 10, 39033, 30446, 25551, 36848, 58, 32, 100,
          10, 25991, 20214, 36335, 24452, 58, 32, 102, 10, 10, 20197, 19979, 26159, 29616,
          26377, 25991, 20214, 20869, 23481, 65292, 35831, 22312, 38656, 35201, 30340, 22320,
          26041, 36827, 34892, 20462, 25913, 58, 10, 10, 120, 10, 10])]"
    by (simp add: world_of_def prompts_def)
  with m st show ?thesis
    by blast
qed

text \<open>
  The claim as it was stated fails on a file that exists and is empty: the prompt sent
  for it has the verb and the sentence of "create". And the text of a file whose line
  ends with carriage return and line feed reaches the prompt with the line feed only:
  the text of the file is not a part of the prompt.
\<close>

theorem prompt_says_create_for_existing_file:
  "exists (disk (world_of empty_file_disk)) (joinpath [[97]] (Path [102]))
   \<and> prompts (trace (snd (process_file demo_services [[97]] [112] [100] [103] [102]
        (world_of empty_file_disk))))
      = [([103],
         [10, 20320, 30340, 20219, 21153, 26159, 20026, 19968, 20010, 112, 39033, 30446,
          21019, 24314, 25991, 20214, 12290, 10, 10, 39033, 30446, 25551, 36848, 58, 32, 100,
          10, 25991, 20214, 36335, 24452, 58, 32, 102, 10, 10, 35831, 29983, 25104, 36866,
          21512, 35813, 25991, 20214, 36335, 24452, 30340, 20869, 23481, 58, 10, 10, 10])]
   \<and> stat (disk (world_of crlf_file_disk)) (joinpath [[97]] (Path [102]))
      = Inr (File (Text [120, 13, 10]))
   \<and> prompts (trace (snd (process_file demo_services [[97]] [112] [100] [103] [102]
        (world_of crlf_file_disk))))
      = [([103],
         [10, 20320, 30340, 20219, 21153, 26159, 20026, 19968, 20010, 112, 39033, 30446,
          20462, 25913, 25991, 20214, 12290, 10, 10, 39033, 30446, 25551, 36848, 58, 32, 100,
          10, 25991, 20214, 36335, 24452, 58, 32, 102, 10, 10, 20197, 19979, 26159, 29616,
          26377, 25991, 20214, 20869, 23481, 65292, 35831, 22312, 38656, 35201, 30340, 22320,
          26041, 36827, 34892, 20462, 25913, 58, 10, 10, 120, 10, 10])]
   \<and> \<not> (\<exists>m p a b. prompts (trace (snd (process_file demo_services [[97]] [112] [100] [103]
                        [102] (world_of crlf_file_disk)))) = [(m, p)]
                   \<and> p = a @ [120, 13, 10] @ b)"
proof -
  have e: "exists (disk (world_of empty_file_disk)) (joinpath [[97]] (Path [102]))"
    by (simp add: world_of_def empty_file_disk_def full_path_f exists_def stat_file_disk_f)
  have "build_prompt [112] [100] [102] [] =
         [10, 20320, 30340, 20219, 21153, 26159, 20026, 19968, 20010, 112, 39033, 30446,
          21019, 24314, 25991, 20214, 12290, 10, 10, 39033, 30446, 25551, 36848, 58, 32, 100,
          10, 25991, 20214, 36335, 24452, 58, 32, 102, 10, 10, 35831, 29983, 25104, 36866,
          21512, 35813, 25991, 20214, 36335, 24452, 30340, 20869, 23481, 58, 10, 10, 10]"
    by (simp add: build_prompt_def action_verb_def instruction_def verb_create_def
          instruction_create_def)
  then have c: "prompts (trace (snd (process_file demo_services [[97]] [112] [100] [103] [102]
        (world_of empty_file_disk))))
      = [([103],
         [10, 20320, 30340, 20219, 21153, 26159, 20026, 19968, 20010, 112, 39033, 30446,
          21019, 24314, 25991, 20214, 12290, 10, 10, 39033, 30446, 25551, 36848, 58, 32, 100,
          10, 25991, 20214, 36335, 24452, 58, 32, 102, 10, 10, 35831, 29983, 25104, 36866,
          21512, 35813, 25991, 20214, 36335, 24452, 30340, 20869, 23481, 58, 10, 10, 10])]"
    using process_file_demo_prompt [of empty_file_disk "[]"]
    by (simp add: empty_file_disk_def stat_file_disk_f is_dir_file_disk_a)
  have s: "stat (disk (world_of crlf_file_disk)) (joinpath [[97]] (Path [102]))
      = Inr (File (Text [120, 13, 10]))"
    by (simp add: world_of_def crlf_file_disk_def full_path_f stat_file_disk_f)
  have "build_prompt [112] [100] [102] [120, 10] =
         [10, 20320, 30340, 20219, 21153, 26159, 20026, 19968, 20010, 112, 39033, 30446,
          20462, 25913, 25991, 20214, 12290, 10, 10, 39033, 30446, 25551, 36848, 58, 32, 100,
          10, 25991, 20214, 36335, 24452, 58, 32, 102, 10, 10, 20197, 19979, 26159, 29616,
          26377, 25991, 20214, 20869, 23481, 65292, 35831, 22312, 38656, 35201, 30340, 22320,
          26041, 36827, 34892, 20462, 25913, 58, 10, 10, 120, 10, 10]"
    by (simp add: build_prompt_def action_verb_def instruction_def verb_modify_def
          instruction_modify_def)
  then have m: "prompts (trace (snd (process_file demo_services [[97]] [112] [100] [103] [102]
        (world_of crlf_file_disk))))
      = [([103],
         [10, 20320, 30340, 20219, 21153, 26159, 20026, 19968, 20010, 112, 39033, 30446,
          20462, 25913, 25991, 20214, 12290, 10, 10, 39033, 30446, 25551, 36848, 58, 32, 100,
          10, 25991, 20214, 36335, 24452, 58, 32, 102, 10, 10, 20197, 19979, 26159, 29616,
          26377, 25991, 20214, 20869, 23481, 65292, 35831, 22312, 38656, 35201, 30340, 22320,
          26041, 36827, 34892, 20462, 25913, 58, 10, 10, 120, 10, 10])]"
    using process_file_demo_prompt [of crlf_file_disk "[120, 13, 10]"]
    by (simp add: crlf_file_disk_def stat_file_disk_f is_dir_file_disk_a)
  have n: "\<not> (\<exists>m p a b. prompts (trace (snd (process_file demo_services [[97]] [112] [100]
                        [103] [102] (world_of crlf_file_disk)))) = [(m, p)]
                   \<and> p = a @ [120, 13, 10] @ b)"
  proof
    assume "\<exists>m p a b. prompts (trace (snd (process_file demo_services [[97]] [112] [100]
                        [103] [102] (world_of crlf_file_disk)))) = [(m, p)]
                   \<and> p = a @ [120, 13, 10] @ b"
    then obtain a b where
      "[10, 20320, 30340, 20219, 21153, 26159, 20026, 19968, 20010, 112, 39033, 30446,
          20462, 25913, 25991, 20214, 12290, 10, 10, 39033, 30446, 25551, 36848, 58, 32, 100,
          10, 25991, 20214, 36335, 24452, 58, 32, 102, 10, 10, 20197, 19979, 26159, 29616,
          26377, 25991, 20214, 20869, 23481, 65292, 35831, 22312, 38656, 35201, 30340, 22320,
          26041, 36827, 34892, 20462, 25913, 58, 10, 10, 120, 10, 10]
        = a @ [120, 13, 10] @ (b :: nat list)"
      unfolding m by auto
    then have "(13::nat) \<in> set
         [10, 20320, 30340, 20219, 21153, 26159, 20026, 19968, 20010, 112, 39033, 30446,
          20462, 25913, 25991, 20214, 12290, 10, 10, 39033, 30446, 25551, 36848, 58, 32, 100,
          10, 25991, 20214, 36335, 24452, 58, 32, 102, 10, 10, 20197, 19979, 26159, 29616,
          26377, 25991, 20214, 20869, 23481, 65292, 35831, 22312, 38656, 35201, 30340, 22320,
          26041, 36827, 34892, 20462, 25913, 58, 10, 10, 120, 10, 10]"
      by (simp only: set_append) simp
    then show False
      by simp
  qed
  from e c s m n show ?thesis
    by blast
qed

subsection \<open>Repository, commit and the whole run\<close>

lemma Path_dot_git: "Path dot_git = PurePath False [dot_git]"
  by (simp add: Path_def dot_git_def slash_def dot_def)

lemma git_dir: "joinpath project_path (Path dot_git) = project_path @ [dot_git]"
  by (simp add: Path_dot_git joinpath_def)

lemma dot_git_not_dotdot: "dot_git \<noteq> dotdot"
  by (simp add: dot_git_def dotdot_def)

lemma ensure_repository_effect:
  assumes "ensure_repository env project_path is_new_project w = (r, w')"
  shows "new_dirs_only (disk w) (disk w') \<and> staged w' = staged w \<and> commits w' = commits w
         \<and> requests w' = requests w
         \<and> actions (trace w') = actions (trace w)
              @ (if is_new_project \<or> \<not> exists (disk w) (project_path @ [dot_git])
                 then [Ran GitInit] else [])
         \<and> (r = Returned () \<longrightarrow> disk w' (project_path @ [dot_git]) \<noteq> None
              \<or> (\<not> is_new_project \<and> exists (disk w) (project_path @ [dot_git]) \<and> w' = w))"
  using assms
  by (auto simp: ensure_repository_def git_dir subprocess_run_def git_effect_def print_def
        log_def Let_def new_dirs_only_refl new_dirs_only_upd actions_def
        split: if_splits)

lemma commit_all_effect:
  assumes "commit_all env project_path commit_message w = (r, w')"
  shows "disk w' = disk w \<and> requests w' = requests w
         \<and> ((r = Raised (CalledProcessError GitAddAll (git_exit env GitAddAll))
              \<and> git_exit env GitAddAll \<noteq> 0
              \<and> actions (trace w') = actions (trace w) @ [Ran GitAddAll]
              \<and> staged w' = staged w \<and> commits w' = commits w)
           \<or> (r = Raised (CalledProcessError (GitCommit commit_message)
                            (git_exit env (GitCommit commit_message)))
              \<and> git_exit env GitAddAll = 0 \<and> git_exit env (GitCommit commit_message) \<noteq> 0
              \<and> actions (trace w') = actions (trace w)
                   @ [Ran GitAddAll, Ran (GitCommit commit_message)]
              \<and> staged w' = worktree (disk w) project_path \<and> commits w' = commits w)
           \<or> (r = Returned ()
              \<and> git_exit env GitAddAll = 0 \<and> git_exit env (GitCommit commit_message) = 0
              \<and> actions (trace w') = actions (trace w)
                   @ [Ran GitAddAll, Ran (GitCommit commit_message)]
              \<and> staged w' = worktree (disk w) project_path
              \<and> commits w' = commits w @ [(commit_message, worktree (disk w) project_path)]))"
  using assms
  by (auto simp: commit_all_def subprocess_run_def git_effect_def print_def log_def Let_def
        actions_def split: if_splits)


lemma in_project_cases:
  assumes "in_project env project_path is_new_project project_type description files
             commit_message model w = (r, w')"
  obtains
    (init_raised) e where "r = Raised e"
      "ensure_repository env project_path is_new_project w = (Raised e, w')"
  | (files_raised) e w1 where "r = Raised e"
      "ensure_repository env project_path is_new_project w = (Returned (), w1)"
      "process_files env project_path project_type description model files w1 = (Raised e, w')"
  | (commit_raised) e w1 w2 where "r = Raised e"
      "ensure_repository env project_path is_new_project w = (Returned (), w1)"
      "process_files env project_path project_type description model files w1 = (Returned (), w2)"
      "commit_all env project_path commit_message w2 = (Raised e, w')"
  | (completed) w1 w2 w3 where "r = Returned ()"
      "ensure_repository env project_path is_new_project w = (Returned (), w1)"
      "process_files env project_path project_type description model files w1 = (Returned (), w2)"
      "commit_all env project_path commit_message w2 = (Returned (), w3)"
      "w' = print (ProjectDone (project_verb is_new_project)) w3"
proof -
  obtain r1 w1 where a: "ensure_repository env project_path is_new_project w = (r1, w1)"
    by (cases "ensure_repository env project_path is_new_project w") auto
  obtain r2 w2 where b:
    "process_files env project_path project_type description model files w1 = (r2, w2)"
    by (cases "process_files env project_path project_type description model files w1") auto
  obtain r3 w3 where c: "commit_all env project_path commit_message w2 = (r3, w3)"
    by (cases "commit_all env project_path commit_message w2") auto
  show ?thesis
  proof (cases r1)
    case (Raised e)
    with a assms show ?thesis
      by (auto simp: in_project_def intro: init_raised)
  next
    case r1: (Returned u1)
    show ?thesis
    proof (cases r2)
      case (Raised e)
      with r1 a b assms show ?thesis
        by (auto simp: in_project_def intro: files_raised)
    next
      case r2: (Returned u2)
      show ?thesis
      proof (cases r3)
        case (Raised e)
        with r1 r2 a b c assms show ?thesis
          by (auto simp: in_project_def intro: commit_raised)
      next
        case (Returned u3)
        with r1 r2 a b c assms show ?thesis
          by (auto simp: in_project_def intro: completed)
      qed
    qed
  qed
qed

lemma create_or_modify_project_cases:
  assumes "create_or_modify_project env cwd path project_type description files commit_message
             model w = (r, w')"
  obtains
    (mkdir_raised) e where "\<not> exists (disk w) (resolve cwd (Path path))" "r = Raised (OSError e)"
      "mkdir_parents (disk w) (resolve cwd (Path path)) = Inl e"
      "w' = log (MkdirParents (resolve cwd (Path path)))
              (print (CreatingDirectory (resolve cwd (Path path))) w)"
  | (new_project) d where "\<not> exists (disk w) (resolve cwd (Path path))"
      "mkdir_parents (disk w) (resolve cwd (Path path)) = Inr d"
      "in_project env (resolve cwd (Path path)) True project_type description files
         commit_message model
         ((log (MkdirParents (resolve cwd (Path path)))
            (print (CreatingDirectory (resolve cwd (Path path))) w))\<lparr>disk := d\<rparr>) = (r, w')"
  | (not_a_directory) "exists (disk w) (resolve cwd (Path path))"
      "\<not> is_dir (disk w) (resolve cwd (Path path))" "r = Returned ()"
      "w' = print (NotADirectory (resolve cwd (Path path))) w"
  | (existing) "is_dir (disk w) (resolve cwd (Path path))"
      "in_project env (resolve cwd (Path path)) False project_type description files
         commit_message model w = (r, w')"
proof (cases "exists (disk w) (resolve cwd (Path path))")
  case False
  show ?thesis
  proof (cases "mkdir_parents (disk w) (resolve cwd (Path path))")
    case (Inl e)
    with False assms show ?thesis
      by (auto simp: create_or_modify_project_def mkdir_def Let_def print_def log_def
               intro: mkdir_raised)
  next
    case (Inr d)
    with False assms show ?thesis
      by (auto simp: create_or_modify_project_def mkdir_def Let_def print_def log_def
               intro: new_project)
  qed
next
  case True
  show ?thesis
  proof (cases "is_dir (disk w) (resolve cwd (Path path))")
    case False
    with True assms show ?thesis
      by (auto simp: create_or_modify_project_def intro: not_a_directory)
  next
    case d: True
    with True assms show ?thesis
      by (auto simp: create_or_modify_project_def intro: existing)
  qed
qed

lemma is_dir_exists: "is_dir fs p \<Longrightarrow> exists fs p"
  by (auto simp: is_dir_def exists_def split: sum.splits)


lemma in_project_actions:
  assumes "in_project env project_path is_new_project project_type description files
             commit_message model w = (r, w')"
  shows "\<exists>body rest tail.
           actions (trace w') = actions (trace w)
             @ (if is_new_project \<or> \<not> exists (disk w) (project_path @ [dot_git])
                then [Ran GitInit] else [])
             @ body @ tail
           \<and> planned project_path files = body @ rest
           \<and> (tail = [] \<or> rest = [] \<and> (tail = [Ran GitAddAll]
                 \<or> tail = [Ran GitAddAll, Ran (GitCommit commit_message)]))
           \<and> (r = Returned () \<longrightarrow>
                rest = [] \<and> tail = [Ran GitAddAll, Ran (GitCommit commit_message)])
           \<and> (r \<noteq> Returned () \<and> commits w' = commits w
               \<or> r = Returned ()
                 \<and> commits w' = commits w @ [(commit_message, worktree (disk w') project_path)])"
  using assms
proof (cases rule: in_project_cases)
  case (init_raised e)
  from ensure_repository_effect [OF init_raised(2)] init_raised(1) show ?thesis
    by (intro exI [of _ "[]"] exI [of _ "planned project_path files"]) simp
next
  case (files_raised e w1)
  from process_files_actions [OF files_raised(3)] obtain acts rest where
    a: "actions (trace w') = actions (trace w1) @ acts" "planned project_path files = acts @ rest"
    by blast
  from ensure_repository_effect [OF files_raised(2)] process_files_state [OF files_raised(3)]
    a files_raised(1)
  show ?thesis
    by (intro exI [of _ acts] exI [of _ rest] exI [of _ "[]"]) simp
next
  case (commit_raised e w1 w2)
  from process_files_actions [OF commit_raised(3)]
  have a: "actions (trace w2) = actions (trace w1) @ planned project_path files"
    by auto
  from commit_all_effect [OF commit_raised(4)] obtain tail where
    t: "actions (trace w') = actions (trace w2) @ tail"
       "tail = [Ran GitAddAll] \<or> tail = [Ran GitAddAll, Ran (GitCommit commit_message)]"
       "commits w' = commits w2"
    by auto
  from ensure_repository_effect [OF commit_raised(2)] process_files_state [OF commit_raised(3)]
    a t commit_raised(1)
  show ?thesis
    by (intro exI [of _ "planned project_path files"] exI [of _ "[]"] exI [of _ tail]) simp
next
  case (completed w1 w2 w3)
  from process_files_actions [OF completed(3)]
  have a: "actions (trace w2) = actions (trace w1) @ planned project_path files"
    by auto
  from commit_all_effect [OF completed(4)] have
    t: "actions (trace w3) = actions (trace w2)
          @ [Ran GitAddAll, Ran (GitCommit commit_message)]"
       "commits w3 = commits w2 @ [(commit_message, worktree (disk w3) project_path)]"
    by auto
  from completed(5) have p: "actions (trace w') = actions (trace w3)" "commits w' = commits w3"
    "disk w' = disk w3"
    by (simp_all add: print_def log_def actions_append) (simp add: actions_def)
  from ensure_repository_effect [OF completed(2)] process_files_state [OF completed(3)]
    a t p completed(1)
  show ?thesis
    by (intro exI [of _ "planned project_path files"] exI [of _ "[]"]
          exI [of _ "[Ran GitAddAll, Ran (GitCommit commit_message)]"]) simp
qed


lemma create_or_modify_project_actions:
  assumes "create_or_modify_project env cwd path project_type description files commit_message
             model w = (r, w')"
  shows "\<exists>body rest tail.
           actions (trace w') = actions (trace w)
             @ (if made_new (disk w) (resolve cwd (Path path))
                   \<or> is_dir (disk w) (resolve cwd (Path path))
                     \<and> \<not> exists (disk w) (joinpath (resolve cwd (Path path)) (Path dot_git))
                then [Ran GitInit] else [])
             @ body @ tail
           \<and> planned (resolve cwd (Path path)) files = body @ rest
           \<and> (tail = [] \<or> rest = [] \<and> (tail = [Ran GitAddAll]
                 \<or> tail = [Ran GitAddAll, Ran (GitCommit commit_message)]))
           \<and> (r = Returned () \<and> (\<not> exists (disk w) (resolve cwd (Path path))
                                   \<or> is_dir (disk w) (resolve cwd (Path path))) \<longrightarrow>
                rest = [] \<and> tail = [Ran GitAddAll, Ran (GitCommit commit_message)]
                \<and> commits w' = commits w
                     @ [(commit_message, worktree (disk w') (resolve cwd (Path path)))])
           \<and> (commits w' = commits w
               \<or> commits w' = commits w
                    @ [(commit_message, worktree (disk w') (resolve cwd (Path path)))])"
  using assms
proof (cases rule: create_or_modify_project_cases)
  case (mkdir_raised e)
  then have "actions (trace w') = actions (trace w)" "commits w' = commits w"
    "\<not> made_new (disk w) (resolve cwd (Path path))"
    "\<not> is_dir (disk w) (resolve cwd (Path path))"
    by (auto simp: print_def log_def actions_def made_new_def dest: is_dir_exists)
  with mkdir_raised(2) show ?thesis
    by (intro exI [of _ "[]"] exI [of _ "planned (resolve cwd (Path path)) files"]) simp
next
  case (new_project d)
  let ?w1 = "(log (MkdirParents (resolve cwd (Path path)))
            (print (CreatingDirectory (resolve cwd (Path path))) w))\<lparr>disk := d\<rparr>"
  have w1: "actions (trace ?w1) = actions (trace w)" "commits ?w1 = commits w"
    by (simp_all add: print_def log_def actions_def)
  have new: "made_new (disk w) (resolve cwd (Path path))"
    using new_project(1,2) by (simp add: made_new_def)
  from in_project_actions [OF new_project(3)] obtain body rest tail where
    "actions (trace w') = actions (trace ?w1) @ [Ran GitInit] @ body @ tail"
    "planned (resolve cwd (Path path)) files = body @ rest"
    "tail = [] \<or> rest = [] \<and> (tail = [Ran GitAddAll]
       \<or> tail = [Ran GitAddAll, Ran (GitCommit commit_message)])"
    "r = Returned () \<longrightarrow>
       rest = [] \<and> tail = [Ran GitAddAll, Ran (GitCommit commit_message)]"
    "r \<noteq> Returned () \<and> commits w' = commits ?w1
     \<or> r = Returned ()
       \<and> commits w' = commits ?w1
            @ [(commit_message, worktree (disk w') (resolve cwd (Path path)))]"
    by auto
  with w1 new show ?thesis
    by (intro exI [of _ body] exI [of _ rest] exI [of _ tail]) auto
next
  case not_a_directory
  then have "actions (trace w') = actions (trace w)" "commits w' = commits w"
    "\<not> made_new (disk w) (resolve cwd (Path path))"
    by (auto simp: print_def log_def actions_def made_new_def)
  with not_a_directory(1,2) show ?thesis
    by (intro exI [of _ "[]"] exI [of _ "planned (resolve cwd (Path path)) files"]) simp
next
  case existing
  then have "\<not> made_new (disk w) (resolve cwd (Path path))"
    by (auto simp: made_new_def dest: is_dir_exists)
  then have init: "(made_new (disk w) (resolve cwd (Path path))
      \<or> is_dir (disk w) (resolve cwd (Path path))
        \<and> \<not> exists (disk w) (joinpath (resolve cwd (Path path)) (Path dot_git)))
     = (False \<or> \<not> exists (disk w) (resolve cwd (Path path) @ [dot_git]))"
    using existing(1) by (simp add: git_dir)
  from in_project_actions [OF existing(2)] obtain body rest tail where
    "actions (trace w') = actions (trace w)
       @ (if False \<or> \<not> exists (disk w) (resolve cwd (Path path) @ [dot_git])
          then [Ran GitInit] else []) @ body @ tail"
    "planned (resolve cwd (Path path)) files = body @ rest"
    "tail = [] \<or> rest = [] \<and> (tail = [Ran GitAddAll]
       \<or> tail = [Ran GitAddAll, Ran (GitCommit commit_message)])"
    "r = Returned () \<longrightarrow>
       rest = [] \<and> tail = [Ran GitAddAll, Ran (GitCommit commit_message)]"
    "r \<noteq> Returned () \<and> commits w' = commits w
     \<or> r = Returned ()
       \<and> commits w' = commits w
            @ [(commit_message, worktree (disk w') (resolve cwd (Path path)))]"
    by blast
  then show ?thesis
    unfolding init
    by (intro exI [of _ body] exI [of _ rest] exI [of _ tail]) auto
qed


subsection \<open>A run that completes\<close>

lemma commit_all_succeeds:
  "git_exit env GitAddAll = 0 \<Longrightarrow> git_exit env (GitCommit commit_message) = 0 \<Longrightarrow>
     fst (commit_all env project_path commit_message w) = Returned ()"
  by (simp add: commit_all_def subprocess_run_def Let_def)

lemma process_files_single:
  "fst (process_files env project_path project_type description model [file_path] w)
     = fst (process_file env project_path project_type description model file_path w)"
  by (auto split: prod.splits result.splits)

lemma in_project_succeeds:
  assumes "exists (disk w) (joinpath project_path (Path dot_git))"
    and "fst (process_files env project_path project_type description model files w)
           = Returned ()"
    and "git_exit env GitAddAll = 0" and "git_exit env (GitCommit commit_message) = 0"
  shows "fst (in_project env project_path False project_type description files
                commit_message model w) = Returned ()"
proof -
  have "ensure_repository env project_path False w = (Returned (), w)"
    using assms(1) by (simp add: ensure_repository_def)
  moreover obtain w2 where
    "process_files env project_path project_type description model files w = (Returned (), w2)"
    using assms(2)
    by (cases "process_files env project_path project_type description model files w") auto
  moreover obtain r3 w3 where c: "commit_all env project_path commit_message w2 = (r3, w3)"
    by (cases "commit_all env project_path commit_message w2") auto
  moreover from c commit_all_succeeds [OF assms(3,4), of project_path w2] have "r3 = Returned ()"
    by simp
  ultimately show ?thesis
    by (simp add: in_project_def)
qed

lemma create_or_modify_existing:
  "is_dir (disk w) (resolve cwd (Path path)) \<Longrightarrow>
     create_or_modify_project env cwd path project_type description files commit_message model w
       = in_project env (resolve cwd (Path path)) False project_type description files
           commit_message model w"
  by (simp add: create_or_modify_project_def is_dir_exists)

lemma demo_git_exit: "git_exit demo_services cmd = 0"
  by (simp add: demo_services_def answering_def split: git_cmd.splits)

lemma exists_project_git: "exists project_disk [[97], dot_git]"
  by (simp add: exists_def stat_def project_disk_def dot_git_def dotdot_def)

lemma demo_run_returns:
  "fst (create_or_modify_project demo_services [] [97] [112] [100] [[102]] [109] [103]
          (world_of project_disk)) = Returned ()"
proof -
  have d: "is_dir (disk (world_of project_disk)) (resolve [] (Path [97]))"
    by (simp add: resolve_a world_of_def is_dir_project_a)
  have g: "exists (disk (world_of project_disk)) (joinpath [[97]] (Path dot_git))"
    by (simp add: git_dir world_of_def exists_project_git)
  have f: "fst (process_files demo_services [[97]] [112] [100] [103] [[102]]
                  (world_of project_disk)) = Returned ()"
    by (simp only: process_files_single process_file_demo_returns)
  from in_project_succeeds [OF g f demo_git_exit demo_git_exit]
  show ?thesis
    by (simp only: create_or_modify_existing [OF d] resolve_a)
qed

lemma count_planned: "count_list (planned project_path files) (Ran cmd) = 0"
  by (induction files) (simp_all add: planned_def file_actions_def)

lemma count_prefix_planned:
  "planned project_path files = body @ rest \<Longrightarrow> count_list body (Ran cmd) = 0"
  using count_planned [of project_path files cmd] by simp

lemma not_made_new_project: "\<not> made_new project_disk [[97]]"
  by (simp add: made_new_def is_dir_exists [OF is_dir_project_a])


lemma made_new_root_a: "made_new root_disk [[97]]"
  by (simp add: made_new_def exists_def stat_def os_mkdir_def root_disk_def dotdot_def
        mkdir_parents.simps [of _ "[[97]]"])

subsection \<open>Order of the work and the one commit\<close>

text \<open>
  C3. What a run does is, in this order: \<^verbatim>\<open>git init\<close> if the project needs it; for the
  files in the order of the list, one request and one write each, up to the file where
  something failed; and only when every file has been written, one \<^verbatim>\<open>git add .\<close>
  followed by one \<^verbatim>\<open>git commit\<close> with the message. A run that returns, on a target
  that is a directory or was not there, has been through all the files, has run the add
  and the commit once each after the last write, and has put exactly one commit with
  the message on the history; no run puts more than one.
\<close>

theorem files_in_order_then_one_commit:
  assumes "create_or_modify_project env cwd path project_type description files commit_message
             model w = (r, w')"
  shows "\<exists>body rest tail.
           actions (trace w') = actions (trace w)
             @ (if made_new (disk w) (resolve cwd (Path path))
                   \<or> is_dir (disk w) (resolve cwd (Path path))
                     \<and> \<not> exists (disk w) (joinpath (resolve cwd (Path path)) (Path dot_git))
                then [Ran GitInit] else [])
             @ body @ tail
           \<and> planned (resolve cwd (Path path)) files = body @ rest
           \<and> (tail = [] \<or> rest = [] \<and> (tail = [Ran GitAddAll]
                 \<or> tail = [Ran GitAddAll, Ran (GitCommit commit_message)]))
           \<and> (r = Returned () \<and> (\<not> exists (disk w) (resolve cwd (Path path))
                                   \<or> is_dir (disk w) (resolve cwd (Path path))) \<longrightarrow>
                rest = [] \<and> tail = [Ran GitAddAll, Ran (GitCommit commit_message)]
                \<and> commits w' = commits w
                     @ [(commit_message, worktree (disk w') (resolve cwd (Path path)))])
           \<and> (commits w' = commits w
               \<or> commits w' = commits w
                    @ [(commit_message, worktree (disk w') (resolve cwd (Path path)))])"
  using assms by (rule create_or_modify_project_actions)

theorem files_in_order_then_one_commit_witness:
  "fst (create_or_modify_project demo_services [] [97] [112] [100] [[102]] [109] [103]
          (world_of project_disk)) = Returned ()
   \<and> is_dir (disk (world_of project_disk)) (resolve [] (Path [97]))
   \<and> actions (trace (snd (create_or_modify_project demo_services [] [97] [112] [100] [[102]]
        [109] [103] (world_of project_disk))))
      = [Requested, Wrote [[97], [102]], Ran GitAddAll, Ran (GitCommit [109])]
   \<and> length (commits (snd (create_or_modify_project demo_services [] [97] [112] [100] [[102]]
        [109] [103] (world_of project_disk)))) = 1"
proof -
  let ?run = "create_or_modify_project demo_services [] [97] [112] [100] [[102]] [109] [103]
                (world_of project_disk)"
  have r: "fst ?run = Returned ()"
    by (rule demo_run_returns)
  then have run: "?run = (Returned (), snd ?run)"
    by (simp add: prod_eq_iff)
  have d: "is_dir (disk (world_of project_disk)) (resolve [] (Path [97]))"
    by (simp add: resolve_a world_of_def is_dir_project_a)
  have facts: "\<not> made_new (disk (world_of project_disk)) (resolve [] (Path [97]))"
    "exists (disk (world_of project_disk)) (joinpath (resolve [] (Path [97])) (Path dot_git))"
    "planned (resolve [] (Path [97])) [[102]] = [Requested, Wrote [[97], [102]]]"
    "actions (trace (world_of project_disk)) = []" "commits (world_of project_disk) = []"
    by (simp_all add: resolve_a world_of_def not_made_new_project git_dir exists_project_git
          planned_def file_actions_def full_path_f actions_def)
  from files_in_order_then_one_commit [OF run] r d facts show ?thesis
    by auto
qed

subsection \<open>Initialising the repository\<close>

text \<open>
  C4. Among the actions of a run, \<^verbatim>\<open>git init\<close> occurs once when the project directory
  was newly made, or was there as a directory without a \<^verbatim>\<open>.git\<close> entry, and does not
  occur otherwise; for a directory that has its \<^verbatim>\<open>.git\<close> entry it never runs.
\<close>

theorem git_init_iff_new_or_unversioned:
  assumes "create_or_modify_project env cwd path project_type description files commit_message
             model w = (r, w')"
  shows "\<exists>acts. actions (trace w') = actions (trace w) @ acts
           \<and> count_list acts (Ran GitInit)
               = (if made_new (disk w) (resolve cwd (Path path))
                     \<or> is_dir (disk w) (resolve cwd (Path path))
                       \<and> \<not> exists (disk w) (joinpath (resolve cwd (Path path)) (Path dot_git))
                  then 1 else 0)"
proof -
  let ?init = "if made_new (disk w) (resolve cwd (Path path))
                   \<or> is_dir (disk w) (resolve cwd (Path path))
                     \<and> \<not> exists (disk w) (joinpath (resolve cwd (Path path)) (Path dot_git))
                then [Ran GitInit] else []"
  from create_or_modify_project_actions [OF assms] obtain body rest tail where
    s: "actions (trace w') = actions (trace w) @ ?init @ body @ tail"
       "planned (resolve cwd (Path path)) files = body @ rest"
       "tail = [] \<or> rest = [] \<and> (tail = [Ran GitAddAll]
          \<or> tail = [Ran GitAddAll, Ran (GitCommit commit_message)])"
    by blast
  have "count_list body (Ran GitInit) = 0"
    using s(2) by (rule count_prefix_planned)
  moreover have "count_list tail (Ran GitInit) = 0"
    using s(3) by auto
  ultimately have "count_list (?init @ body @ tail) (Ran GitInit)
                     = (if ?init = [] then 0 else 1)"
    by simp
  with s(1) show ?thesis
    by (intro exI [of _ "?init @ body @ tail"]) (simp split: if_splits)
qed

theorem git_init_iff_new_or_unversioned_witness:
  "(\<exists>acts. actions (trace (snd (create_or_modify_project demo_services [] [97] [112] [100]
               [[102]] [109] [103] (world_of project_disk)))) = acts
          \<and> count_list acts (Ran GitInit) = 0)
   \<and> (\<exists>acts. actions (trace (snd (create_or_modify_project demo_services [] [97] [112] [100]
               [[102]] [109] [103] (world_of root_disk)))) = acts
          \<and> count_list acts (Ran GitInit) = 1)"
proof -
  let ?old = "create_or_modify_project demo_services [] [97] [112] [100] [[102]] [109] [103]
                (world_of project_disk)"
  let ?new = "create_or_modify_project demo_services [] [97] [112] [100] [[102]] [109] [103]
                (world_of root_disk)"
  have old: "?old = (fst ?old, snd ?old)" and new: "?new = (fst ?new, snd ?new)"
    by simp_all
  have facts: "\<not> made_new (disk (world_of project_disk)) (resolve [] (Path [97]))"
    "exists (disk (world_of project_disk)) (joinpath (resolve [] (Path [97])) (Path dot_git))"
    "made_new (disk (world_of root_disk)) (resolve [] (Path [97]))"
    "actions (trace (world_of project_disk)) = []" "actions (trace (world_of root_disk)) = []"
    by (simp_all add: resolve_a world_of_def not_made_new_project git_dir exists_project_git
          made_new_root_a actions_def)
  from git_init_iff_new_or_unversioned [OF old] git_init_iff_new_or_unversioned [OF new] facts
  show ?thesis
    by simp
qed


subsection \<open>Failures leave the work done so far\<close>

lemma process_file_refused:
  assumes "is_dir (disk w) (parent (joinpath project_path (Path file_path)))"
    and "\<not> exists (disk w) (joinpath project_path (Path file_path))"
    and "chat_completion env (requests w) model
           (build_prompt project_type description file_path []) = RequestFailed"
  shows "fst (process_file env project_path project_type description model file_path w)
           = Raised APIError"
proof -
  let ?full = "joinpath project_path (Path file_path)"
  let ?w1 = "log (MkdirParents (parent ?full)) w"
  have "\<not> exists (disk ?w1) ?full"
    using assms(2) by (simp add: log_def)
  then have "read_existing ?full ?w1 = (Returned [], ?w1)"
    by (rule read_existing_absent)
  then have "process_file env project_path project_type description model file_path w
               = generate env project_type description model file_path ?full [] ?w1"
    by (simp add: process_file_in_directory [OF assms(1)])
  moreover have "fst (generate env project_type description model file_path ?full [] ?w1)
                   = Raised APIError"
    using assms(3) by (simp add: generate_unfold log_def)
  ultimately show ?thesis
    by simp
qed

lemma ensure_repository_versioned:
  "exists (disk w) (joinpath project_path (Path dot_git)) \<Longrightarrow>
     ensure_repository env project_path False w = (Returned (), w)"
  by (simp add: ensure_repository_def)

text \<open>
  C8. No cleanup, no rollback. When the request or the stream of the N-th file fails, the
  run ends with that exception in the world of that moment: everything on the disk is as
  it was after the files before it were written (only directories for the N-th file may
  be new), the failed request is the last action (no write, no later file, no
  \<^verbatim>\<open>git add\<close>, no \<^verbatim>\<open>git commit\<close>), and index and history of the repository are
  untouched. When \<^verbatim>\<open>git add\<close> succeeds and \<^verbatim>\<open>git commit\<close> fails, the run ends with
  that failure, the disk as the files left it, the working tree staged and no commit
  made.
\<close>

theorem failure_leaves_work_in_place:
  "(ensure_repository env project_path is_new_project w = (Returned (), w0)
    \<and> process_files env project_path project_type description model before w0
        = (Returned (), w1)
    \<and> process_file env project_path project_type description model file_path w1
        = (Raised e, w2)
    \<and> (e = APIError \<or> e = StreamError)
    \<longrightarrow> in_project env project_path is_new_project project_type description
          (before @ file_path # after) commit_message model w = (Raised e, w2)
        \<and> new_dirs_only (disk w1) (disk w2)
        \<and> actions (trace w2) = actions (trace w1) @ [Requested]
        \<and> staged w2 = staged w \<and> commits w2 = commits w)
   \<and> (ensure_repository env project_path is_new_project w = (Returned (), w0)
      \<and> process_files env project_path project_type description model files w0
          = (Returned (), w1)
      \<and> git_exit env GitAddAll = 0 \<and> git_exit env (GitCommit commit_message) \<noteq> 0
      \<longrightarrow> (\<exists>w3. in_project env project_path is_new_project project_type description files
                  commit_message model w
                = (Raised (CalledProcessError (GitCommit commit_message)
                     (git_exit env (GitCommit commit_message))), w3)
              \<and> disk w3 = disk w1
              \<and> staged w3 = worktree (disk w1) project_path
              \<and> commits w3 = commits w))"
proof (intro conjI impI)
  assume a: "ensure_repository env project_path is_new_project w = (Returned (), w0)
    \<and> process_files env project_path project_type description model before w0
        = (Returned (), w1)
    \<and> process_file env project_path project_type description model file_path w1
        = (Raised e, w2)
    \<and> (e = APIError \<or> e = StreamError)"
  then have loop: "process_files env project_path project_type description model
                     (before @ file_path # after) w0 = (Raised e, w2)"
    by (simp add: process_files_append)
  with a show "in_project env project_path is_new_project project_type description
          (before @ file_path # after) commit_message model w = (Raised e, w2)"
    by (simp add: in_project_def)
  from a have f: "process_file env project_path project_type description model file_path w1
        = (Raised e, w2)" and e: "Raised e = Raised APIError \<or> Raised e = Raised StreamError"
    by simp_all
  from process_file_failed [OF f e]
  show "new_dirs_only (disk w1) (disk w2)"
    and "actions (trace w2) = actions (trace w1) @ [Requested]"
    by simp_all
  from a ensure_repository_effect [of env project_path is_new_project w "Returned ()" w0]
    process_files_state [OF loop]
  show "staged w2 = staged w" and "commits w2 = commits w"
    by simp_all
next
  assume b: "ensure_repository env project_path is_new_project w = (Returned (), w0)
      \<and> process_files env project_path project_type description model files w0
          = (Returned (), w1)
      \<and> git_exit env GitAddAll = 0 \<and> git_exit env (GitCommit commit_message) \<noteq> 0"
  obtain r3 w3 where c: "commit_all env project_path commit_message w1 = (r3, w3)"
    by (cases "commit_all env project_path commit_message w1") auto
  from commit_all_effect [OF c] b have
    c': "r3 = Raised (CalledProcessError (GitCommit commit_message)
                (git_exit env (GitCommit commit_message)))"
        "disk w3 = disk w1" "staged w3 = worktree (disk w1) project_path"
        "commits w3 = commits w1"
    by auto
  from b have "process_files env project_path project_type description model files w0
          = (Returned (), w1)"
    by simp
  from process_files_state [OF this] b
    ensure_repository_effect [of env project_path is_new_project w "Returned ()" w0]
  have "commits w1 = commits w"
    by simp
  with b c c' show "\<exists>w3. in_project env project_path is_new_project project_type description
                  files commit_message model w
                = (Raised (CalledProcessError (GitCommit commit_message)
                     (git_exit env (GitCommit commit_message))), w3)
              \<and> disk w3 = disk w1
              \<and> staged w3 = worktree (disk w1) project_path
              \<and> commits w3 = commits w"
    by (intro exI [of _ w3]) (simp add: in_project_def)
qed

theorem failure_leaves_work_in_place_witness:
  "in_project refusing_services [[97]] False [112] [100] ([] @ [102] # [[103]]) [109] [103]
     (world_of project_disk)
     = (Raised APIError,
        snd (process_file refusing_services [[97]] [112] [100] [103] [102]
               (world_of project_disk)))
   \<and> actions (trace (snd (process_file refusing_services [[97]] [112] [100] [103] [102]
                            (world_of project_disk)))) = [Requested]
   \<and> commits (snd (process_file refusing_services [[97]] [112] [100] [103] [102]
                     (world_of project_disk))) = []
   \<and> (\<exists>w3. in_project uncommitting_services [[97]] False [112] [100] [[102]] [109] [103]
               (world_of project_disk)
             = (Raised (CalledProcessError (GitCommit [109]) 1), w3)
           \<and> disk w3 [[97], [102]] = Some (File (Text [104, 105]))
           \<and> staged w3 [[102]] = Some (File (Text [104, 105]))
           \<and> commits w3 = [])"
proof -
  let ?w = "world_of project_disk"
  have git: "exists (disk ?w) (joinpath [[97]] (Path dot_git))"
    by (simp add: git_dir world_of_def exists_project_git)
  have dir: "is_dir (disk ?w) (parent (joinpath [[97]] (Path [102])))"
    by (simp add: full_path_f parent_def world_of_def is_dir_project_a)
  have absent: "\<not> exists (disk ?w) (joinpath [[97]] (Path [102]))"
    by (simp add: full_path_f world_of_def not_exists_project_f)

  let ?failed = "process_file refusing_services [[97]] [112] [100] [103] [102] ?w"
  have "fst ?failed = Raised APIError"
    by (rule process_file_refused [OF dir absent])
       (simp add: refusing_services_def answering_def)
  then have failed: "?failed = (Raised APIError, snd ?failed)"
    by (simp add: prod_eq_iff)
  have a: "ensure_repository refusing_services [[97]] False ?w = (Returned (), ?w)
    \<and> process_files refusing_services [[97]] [112] [100] [103] [] ?w = (Returned (), ?w)
    \<and> ?failed = (Raised APIError, snd ?failed)
    \<and> (APIError = APIError \<or> APIError = StreamError)"
    using failed ensure_repository_versioned [OF git] by simp
  have first: "in_project refusing_services [[97]] False [112] [100] ([] @ [102] # [[103]])
                 [109] [103] ?w = (Raised APIError, snd ?failed)
     \<and> actions (trace (snd ?failed)) = [Requested]
     \<and> commits (snd ?failed) = []"
    using failure_leaves_work_in_place [THEN conjunct1, rule_format, OF a,
        of "[[103]]" "[109]"]
    by (simp add: world_of_def actions_def)

  let ?files = "process_files uncommitting_services [[97]] [112] [100] [103] [[102]] ?w"
  have ok: "fst (process_file uncommitting_services [[97]] [112] [100] [103] [102] ?w)
              = Returned ()"
    by (rule process_file_succeeds_new [where q = "[[97], [102]]" and chunks = "[hi_chunk]"])
       (simp_all add: full_path_f parent_def world_of_def is_dir_project_a walk_project_f
          project_disk_simps uncommitting_services_def answering_def hi_content encodable_def
          del: walk.simps)
  then have "fst ?files = Returned ()"
    by (simp only: process_files_single)
  then have files: "?files = (Returned (), snd ?files)"
    by (simp add: prod_eq_iff)
  have exits: "git_exit uncommitting_services GitAddAll = 0"
    "git_exit uncommitting_services (GitCommit [109]) = 1"
    by (simp_all add: uncommitting_services_def answering_def)
  have b: "ensure_repository uncommitting_services [[97]] False ?w = (Returned (), ?w)
      \<and> ?files = (Returned (), snd ?files)
      \<and> git_exit uncommitting_services GitAddAll = 0
      \<and> git_exit uncommitting_services (GitCommit [109]) \<noteq> 0"
    using files exits ensure_repository_versioned [OF git] by simp
  have written: "disk (snd ?files) [[97], [102]] = Some (File (Text [104, 105]))"
  proof -
    obtain r1 w1 where s: "process_file uncommitting_services [[97]] [112] [100] [103] [102] ?w
                             = (r1, w1)"
      by (cases "process_file uncommitting_services [[97]] [112] [100] [103] [102] ?w") auto
    with ok have r1: "r1 = Returned ()"
      by simp
    with s have w1: "snd ?files = w1"
      by simp
    from s r1 process_file_Returned [of uncommitting_services "[[97]]" "[112]" "[100]" "[103]"
        "[102]" ?w w1]
    have st: "stat (disk w1) [[97], [102]] = Inr (File (Text [104, 105]))"
      by (auto simp: full_path_f uncommitting_services_def answering_def hi_content)
    from process_file_disk [OF s] have "keeps_dirs (disk ?w) (disk w1)"
      by (rule changes_within_keeps_dirs)
    then have "walk (disk w1) [] [[97], [102]] = Inr [[97], [102]]"
      by (rule walk_keeps_dirs) (simp add: world_of_def walk_project_f del: walk.simps)
    with st w1 show ?thesis
      by (simp add: stat_def split: option.splits del: walk.simps)
  qed
  have second: "\<exists>w3. in_project uncommitting_services [[97]] False [112] [100] [[102]] [109]
               [103] ?w
             = (Raised (CalledProcessError (GitCommit [109]) 1), w3)
           \<and> disk w3 [[97], [102]] = Some (File (Text [104, 105]))
           \<and> staged w3 [[102]] = Some (File (Text [104, 105]))
           \<and> commits w3 = []"
    using failure_leaves_work_in_place [THEN conjunct2, rule_format, OF b] exits written
    by (auto simp: world_of_def worktree_def dot_git_def)
  from first second show ?thesis
    by simp
qed


subsection \<open>Canonical paths\<close>

lemma canonical_foldl:
  "dotdot \<notin> set acc \<Longrightarrow>
     dotdot \<notin> set (foldl (\<lambda>acc c. if c = dotdot then butlast acc else acc @ [c]) acc cs)"
proof (induction cs arbitrary: acc)
  case Nil
  then show ?case by simp
next
  case (Cons c cs)
  show ?case
  proof (cases "c = dotdot")
    case True
    from Cons.prems have "dotdot \<notin> set (butlast acc)"
      by (auto dest: in_set_butlastD)
    with Cons.IH True show ?thesis by simp
  next
    case False
    with Cons.prems have "dotdot \<notin> set (acc @ [c])"
      by simp
    with Cons.IH False show ?thesis by simp
  qed
qed

lemma canonical_resolve: "canonical (resolve cwd p)"
  by (simp add: canonical_def resolve_def normpath_def canonical_foldl)

lemma walk_canonical:
  "dotdot \<notin> set cs \<Longrightarrow> walk fs cur cs = Inr q \<Longrightarrow> q = cur @ cs"
proof (induction cs arbitrary: cur)
  case Nil
  then show ?case by simp
next
  case (Cons c cs)
  from Cons.prems have "walk fs (cur @ [c]) cs = Inr q" "dotdot \<notin> set cs"
    by (auto split: option.splits node.splits)
  with Cons.IH [of "cur @ [c]"] show ?case
    by simp
qed

lemma walk_errors:
  "walk fs cur cs = Inl e \<Longrightarrow> e = ENOENT \<or> e = ENOTDIR"
  by (induction cs arbitrary: cur) (auto split: option.splits node.splits if_splits)

lemma walk_ENOTDIR:
  "dotdot \<notin> set cs \<Longrightarrow> walk fs cur cs = Inl ENOTDIR \<Longrightarrow>
     \<exists>k\<le>length cs. \<exists>c. fs (cur @ take k cs) = Some (File c)"
proof (induction cs arbitrary: cur)
  case Nil
  then show ?case by simp
next
  case (Cons x cs)
  show ?case
  proof (cases "fs cur")
    case None
    with Cons.prems show ?thesis by simp
  next
    case (Some n)
    show ?thesis
    proof (cases n)
      case Dir
      with Some Cons.prems have "walk fs (cur @ [x]) cs = Inl ENOTDIR" "dotdot \<notin> set cs"
        by auto
      with Cons.IH obtain k c where "k \<le> length cs" "fs ((cur @ [x]) @ take k cs) = Some (File c)"
        by blast
      then show ?thesis
        by (intro exI [of _ "Suc k"]) auto
    next
      case (File c)
      with Some show ?thesis
        by (intro exI [of _ 0]) auto
    qed
  qed
qed

lemma is_dir_iff: "is_dir fs p \<longleftrightarrow> (\<exists>q. walk fs [] p = Inr q \<and> fs q = Some Dir)"
  by (auto simp: is_dir_def stat_def split: sum.splits option.splits node.splits)

lemma exists_iff: "exists fs p \<longleftrightarrow> (\<exists>q. walk fs [] p = Inr q \<and> fs q \<noteq> None)"
  by (auto simp: exists_def stat_def split: sum.splits option.splits)

lemma is_dir_canonical:
  "canonical p \<Longrightarrow> is_dir fs p \<longleftrightarrow> walk fs [] p = Inr p \<and> fs p = Some Dir"
  by (auto simp: is_dir_iff canonical_def dest: walk_canonical)

lemma is_dir_prefix:
  assumes "canonical p" and "is_dir fs p" and "k \<le> length p"
  shows "is_dir fs (take k p)"
proof (cases "drop k p")
  case Nil
  with assms(3) have "take k p = p"
    by simp
  with assms(2) show ?thesis by simp
next
  case (Cons c cs)
  have c: "dotdot \<notin> set (take k p)"
    using assms(1) by (auto simp: canonical_def dest: in_set_takeD)
  have "walk fs [] p
          = (case walk fs [] (take k p) of Inl e \<Rightarrow> Inl e | Inr q \<Rightarrow> walk fs q (drop k p))"
    using walk_append [of fs "[]" "take k p" "drop k p"] by simp
  moreover from assms(1,2) have "walk fs [] p = Inr p"
    by (simp add: is_dir_canonical)
  ultimately obtain q where q: "walk fs [] (take k p) = Inr q" "walk fs q (drop k p) = Inr p"
    by (auto split: sum.splits)
  from q(2) Cons have "fs q = Some Dir"
    by (auto split: option.splits node.splits)
  with q(1) show ?thesis
    by (auto simp: is_dir_iff)
qed

lemma mkdir_parents_succeeds:
  "dotdot \<notin> set p \<Longrightarrow> (\<forall>k\<le>length p. \<forall>c. fs (take k p) \<noteq> Some (File c)) \<Longrightarrow>
     \<exists>fs'. mkdir_parents fs p = Inr fs'"
proof (induction p rule: rev_induct)
  case Nil
  then have "fs [] = None \<or> fs [] = Some Dir"
    by (cases "fs []") (auto intro: node.exhaust)
  then show ?case
    by (auto simp: mkdir_parents.simps [of fs "[]"] os_mkdir_def is_dir_def stat_def)
next
  case (snoc c p)
  have canon: "dotdot \<notin> set p" "c \<noteq> dotdot"
    using snoc.prems(1) by auto
  have nofile: "\<forall>k\<le>length p. \<forall>c. fs (take k p) \<noteq> Some (File c)"
  proof (intro allI impI)
    fix k ca
    assume "k \<le> length p"
    with snoc.prems(2) [rule_format, of k ca] show "fs (take k p) \<noteq> Some (File ca)"
      by simp
  qed
  have target: "\<And>ca. fs (p @ [c]) \<noteq> Some (File ca)"
    using snoc.prems(2) [rule_format, of "Suc (length p)"] by simp
  show ?case
  proof (cases "os_mkdir fs (p @ [c])")
    case (Inr a)
    then show ?thesis
      by (simp add: mkdir_parents.simps [of fs "p @ [c]"])
  next
    case (Inl e)
    show ?thesis
    proof (cases "e = ENOENT")
      case True
      from snoc.IH [OF canon(1) nofile] obtain fs1 where fs1: "mkdir_parents fs p = Inr fs1"
        by blast
      from mkdir_parents_is_dir [OF fs1] canon(1)
      have d: "walk fs1 [] p = Inr p" "fs1 p = Some Dir"
        by (simp_all add: is_dir_canonical canonical_def)
      then have w: "walk fs1 [] (p @ [c]) = Inr (p @ [c])"
        using canon(2) by (simp add: walk_append)
      from mkdir_parents_new_dirs [OF fs1] target
      have "fs1 (p @ [c]) = None \<or> fs1 (p @ [c]) = Some Dir"
        unfolding new_dirs_only_def by (metis node.exhaust option.exhaust)
      then have "(\<exists>fs2. os_mkdir fs1 (p @ [c]) = Inr fs2)
                 \<or> (os_mkdir fs1 (p @ [c]) = Inl EEXIST \<and> is_dir fs1 (p @ [c]))"
        using w by (auto simp: os_mkdir_def is_dir_iff)
      with Inl True fs1 show ?thesis
        by (auto simp: mkdir_parents.simps [of fs "p @ [c]"])
    next
      case False
      from Inl have "walk fs [] (p @ [c]) = Inl e
                     \<or> (\<exists>q. walk fs [] (p @ [c]) = Inr q \<and> fs q \<noteq> None \<and> e = EEXIST)"
        by (auto simp: os_mkdir_def split: sum.splits option.splits)
      then have "is_dir fs (p @ [c])"
      proof
        assume w: "walk fs [] (p @ [c]) = Inl e"
        with False walk_errors [OF w] have "walk fs [] (p @ [c]) = Inl ENOTDIR"
          by auto
        from walk_ENOTDIR [OF snoc.prems(1) this] snoc.prems(2) show ?thesis
          by auto
      next
        assume "\<exists>q. walk fs [] (p @ [c]) = Inr q \<and> fs q \<noteq> None \<and> e = EEXIST"
        then obtain q where q: "walk fs [] (p @ [c]) = Inr q" "fs q \<noteq> None"
          by blast
        from walk_canonical [OF snoc.prems(1) q(1)] have "q = p @ [c]"
          by simp
        with q target have "fs q = Some Dir"
          by (metis node.exhaust option.exhaust)
        with q(1) show ?thesis
          by (auto simp: is_dir_iff)
      qed
      with Inl False show ?thesis
        by (cases e) (simp_all add: mkdir_parents.simps [of fs "p @ [c]"])
    qed
  qed
qed


subsection \<open>What stays on the disk\<close>

lemma new_dirs_only_survives: "new_dirs_only a b \<Longrightarrow> a q \<noteq> None \<Longrightarrow> b q \<noteq> None"
  unfolding new_dirs_only_def by metis

lemma changes_within_survives: "changes_within a ps b \<Longrightarrow> a q \<noteq> None \<Longrightarrow> b q \<noteq> None"
  unfolding changes_within_def by (metis option.distinct(1))

lemma is_dir_keeps: "keeps_dirs a b \<Longrightarrow> is_dir a p \<Longrightarrow> is_dir b p"
  by (auto simp: is_dir_iff keeps_dirs_def dest: walk_keeps_dirs [rotated])

lemma exists_keeps:
  assumes "keeps_dirs a b" and "\<And>q. a q \<noteq> None \<Longrightarrow> b q \<noteq> None" and "exists a p"
  shows "exists b p"
proof -
  from assms(3) obtain q where q: "walk a [] p = Inr q" "a q \<noteq> None"
    by (auto simp: exists_iff)
  from walk_keeps_dirs [OF assms(1) q(1)] assms(2) [OF q(2)] show ?thesis
    by (auto simp: exists_iff)
qed

lemma in_project_disk:
  assumes "in_project env project_path is_new_project project_type description files
             commit_message model w = (r, w')"
  shows "\<exists>d. new_dirs_only (disk w) d
           \<and> changes_within d ((\<lambda>f. joinpath project_path (Path f)) ` set files) (disk w')
           \<and> (\<forall>w1. ensure_repository env project_path is_new_project w = (Returned (), w1)
                  \<longrightarrow> d = disk w1)"
  using assms
proof (cases rule: in_project_cases)
  case (init_raised e)
  with ensure_repository_effect [OF init_raised(2)] show ?thesis
    by (intro exI [of _ "disk w'"]) (simp add: changes_within_refl)
next
  case (files_raised e w1)
  with ensure_repository_effect [OF files_raised(2)] process_files_disk [OF files_raised(3)]
  show ?thesis
    by (intro exI [of _ "disk w1"]) simp
next
  case (commit_raised e w1 w2)
  with ensure_repository_effect [OF commit_raised(2)] process_files_disk [OF commit_raised(3)]
    commit_all_effect [OF commit_raised(4)]
  show ?thesis
    by (intro exI [of _ "disk w1"]) simp
next
  case (completed w1 w2 w3)
  with ensure_repository_effect [OF completed(2)] process_files_disk [OF completed(3)]
    commit_all_effect [OF completed(4)]
  show ?thesis
    by (intro exI [of _ "disk w1"]) (simp add: print_def log_def)
qed

lemma in_project_survives:
  assumes "in_project env project_path is_new_project project_type description files
             commit_message model w = (r, w')"
    and "disk w q \<noteq> None"
  shows "disk w' q \<noteq> None"
  using in_project_disk [OF assms(1)] assms(2)
  by (blast dest: new_dirs_only_survives changes_within_survives)

lemma create_or_modify_project_survives:
  assumes "create_or_modify_project env cwd path project_type description files commit_message
             model w = (r, w')"
    and "disk w q \<noteq> None"
  shows "disk w' q \<noteq> None"
  using assms(1)
proof (cases rule: create_or_modify_project_cases)
  case (mkdir_raised e)
  with assms(2) show ?thesis
    by (simp add: print_def log_def)
next
  case (new_project d)
  from mkdir_parents_new_dirs [OF new_project(2)] assms(2) have "d q \<noteq> None"
    by (rule new_dirs_only_survives)
  with in_project_survives [OF new_project(3), of q] show ?thesis
    by simp
next
  case not_a_directory
  with assms(2) show ?thesis
    by (simp add: print_def log_def)
next
  case existing
  from in_project_survives [OF existing(2) assms(2)] show ?thesis .
qed


lemma full_path_g: "joinpath [[97]] (Path [103]) = [[97], [103]]"
  by (simp add: Path_def slash_def dot_def joinpath_def)

text \<open>
  C10. Whatever the loop over the files does to the disk, and however it ends, every
  path holds what it held before, except for new directories on the way to the parent
  of a listed file, and for the text files that the listed paths denote. So a file that
  no listed path denotes keeps its content, and nothing that was on the disk is gone
  afterwards; the last holds for the whole run of \<open>create_or_modify_project\<close> too.
\<close>

theorem loop_touches_listed_files_only:
  assumes "process_files env project_path project_type description model files w = (r, w')"
    and "create_or_modify_project env cwd path project_type description files commit_message
           model v = (r', v')"
  shows "changes_within (disk w) ((\<lambda>f. joinpath project_path (Path f)) ` set files) (disk w')
         \<and> (\<forall>q c. disk w q = Some (File c)
                \<and> (\<forall>f\<in>set files. walk (disk w') [] (joinpath project_path (Path f)) \<noteq> Inr q)
                \<longrightarrow> disk w' q = Some (File c))
         \<and> (\<forall>q. disk w q \<noteq> None \<longrightarrow> disk w' q \<noteq> None)
         \<and> (\<forall>q. disk v q \<noteq> None \<longrightarrow> disk v' q \<noteq> None)"
proof (intro conjI allI impI)
  show cw: "changes_within (disk w) ((\<lambda>f. joinpath project_path (Path f)) ` set files) (disk w')"
    using assms(1) by (rule process_files_disk)
  {
    fix q c
    assume a: "disk w q = Some (File c)
      \<and> (\<forall>f\<in>set files. walk (disk w') [] (joinpath project_path (Path f)) \<noteq> Inr q)"
    from cw have "disk w' q = disk w q
        \<or> (disk w q = None \<and> disk w' q = Some Dir
            \<and> (\<exists>p\<in>(\<lambda>f. joinpath project_path (Path f)) ` set files.
                  \<exists>k\<le>length (parent p). walk (disk w') [] (take k (parent p)) = Inr q))
        \<or> (disk w q \<noteq> Some Dir \<and> (\<exists>s. disk w' q = Some (File (Text s)))
            \<and> (\<exists>p\<in>(\<lambda>f. joinpath project_path (Path f)) ` set files.
                  walk (disk w') [] p = Inr q))"
      by (simp add: changes_within_def)
    with a show "disk w' q = Some (File c)"
      by auto
  }
  {
    fix q
    assume "disk w q \<noteq> None"
    with cw show "disk w' q \<noteq> None"
      by (rule changes_within_survives)
  }
  {
    fix q
    assume "disk v q \<noteq> None"
    with assms(2) show "disk v' q \<noteq> None"
      by (rule create_or_modify_project_survives)
  }
qed

theorem loop_touches_listed_files_only_witness:
  "disk (world_of crlf_file_disk) [[97], [102]] = Some (File (Text [120, 13, 10]))
   \<and> disk (snd (process_files demo_services [[97]] [112] [100] [103] [[103]]
                  (world_of crlf_file_disk))) [[97], [102]]
       = Some (File (Text [120, 13, 10]))
   \<and> disk (snd (create_or_modify_project demo_services [] [97] [112] [100] [[103]] [109] [103]
                  (world_of crlf_file_disk))) [[97], [102]] \<noteq> None"
proof -
  let ?loop = "process_files demo_services [[97]] [112] [100] [103] [[103]]
                 (world_of crlf_file_disk)"
  let ?run = "create_or_modify_project demo_services [] [97] [112] [100] [[103]] [109] [103]
                (world_of crlf_file_disk)"
  have loop: "?loop = (fst ?loop, snd ?loop)" and run: "?run = (fst ?run, snd ?run)"
    by simp_all
  have f: "disk (world_of crlf_file_disk) [[97], [102]] = Some (File (Text [120, 13, 10]))"
    by (simp add: world_of_def crlf_file_disk_def)
  have other: "\<forall>f\<in>set [[103]]. walk (disk (snd ?loop)) [] (joinpath [[97]] (Path f))
                 \<noteq> Inr [[97], [102]]"
  proof -
    have "walk (disk (snd ?loop)) [] [[97], [103]] \<noteq> Inr [[97], [102]]"
      using walk_canonical [of "[[97], [103]]" "disk (snd ?loop)" "[]" "[[97], [102]]"]
      by (auto simp: dotdot_def simp del: walk.simps)
    then show ?thesis
      by (simp add: full_path_g del: walk.simps)
  qed
  from loop_touches_listed_files_only [OF loop run] f other show ?thesis
    by (auto simp del: walk.simps)
qed


lemma ensure_repository_new:
  "git_exit env GitInit = 0 \<Longrightarrow>
     fst (ensure_repository env project_path True w) = Returned ()"
  by (simp add: ensure_repository_def subprocess_run_def Let_def)

lemma mkdir_succeeds:
  assumes "canonical p" and "\<forall>k\<le>length p. \<forall>c. disk w (take k p) \<noteq> Some (File c)"
  shows "fst (mkdir p w) = Returned ()"
proof -
  from assms have "\<exists>fs'. mkdir_parents (disk (log (MkdirParents p) w)) p = Inr fs'"
    by (intro mkdir_parents_succeeds) (simp_all add: canonical_def log_def)
  then show ?thesis
    by (auto simp: mkdir_def Let_def)
qed

lemma exists_git_dir:
  assumes "canonical p" and "is_dir fs p" and "fs (p @ [dot_git]) \<noteq> None"
  shows "exists fs (joinpath p (Path dot_git))"
proof -
  from assms(1,2) have "walk fs [] p = Inr p" "fs p = Some Dir"
    by (simp_all add: is_dir_canonical)
  then have "walk fs [] (p @ [dot_git]) = Inr (p @ [dot_git])"
    by (simp add: walk_append dot_git_not_dotdot)
  with assms(3) show ?thesis
    by (auto simp: exists_iff git_dir)
qed

subsection \<open>A new project\<close>

text \<open>
  C7. When nothing is at the target path, and the directory has been made and the
  repository initialised, the path is a directory, every leading part of it is a
  directory, and it has its \<^verbatim>\<open>.git\<close> entry; this is the world the rest of the run
  starts from, and it is still so in the world the run ends in. Both steps do succeed
  when no leading part of the path is a regular file and \<^verbatim>\<open>git init\<close> exits with 0.
\<close>

theorem new_project_is_set_up:
  assumes "p = resolve cwd (Path path)"
  shows "(\<not> exists (disk w) p
          \<and> mkdir p (print (CreatingDirectory p) w) = (Returned (), w1)
          \<and> ensure_repository env p True w1 = (Returned (), w2)
          \<longrightarrow> create_or_modify_project env cwd path project_type description files
                commit_message model w
              = in_project env p True project_type description files commit_message model w1
            \<and> is_dir (disk w2) p
            \<and> (\<forall>k\<le>length p. is_dir (disk w2) (take k p))
            \<and> exists (disk w2) (joinpath p (Path dot_git))
            \<and> (\<forall>r w'. in_project env p True project_type description files commit_message
                         model w1 = (r, w')
                  \<longrightarrow> is_dir (disk w') p \<and> exists (disk w') (joinpath p (Path dot_git))))
         \<and> (\<not> exists (disk w) p
            \<and> (\<forall>k\<le>length p. \<forall>c. disk w (take k p) \<noteq> Some (File c))
            \<and> git_exit env GitInit = 0
            \<longrightarrow> (\<exists>w1 w2. mkdir p (print (CreatingDirectory p) w) = (Returned (), w1)
                    \<and> ensure_repository env p True w1 = (Returned (), w2)))"
proof (intro conjI impI)
  have canon: "canonical p"
    using assms by (simp add: canonical_resolve)
  {
    assume a: "\<not> exists (disk w) p
          \<and> mkdir p (print (CreatingDirectory p) w) = (Returned (), w1)
          \<and> ensure_repository env p True w1 = (Returned (), w2)"
    then have m: "mkdir p (print (CreatingDirectory p) w) = (Returned (), w1)"
      and e: "ensure_repository env p True w1 = (Returned (), w2)"
      by simp_all
    from a assms show "create_or_modify_project env cwd path project_type description files
                commit_message model w
              = in_project env p True project_type description files commit_message model w1"
      by (simp add: create_or_modify_project_def)
    from mkdir_effect(6) [OF m] have d1: "is_dir (disk w1) p"
      by simp
    from ensure_repository_effect [OF e] have
      n: "new_dirs_only (disk w1) (disk w2)" and g: "disk w2 (p @ [dot_git]) \<noteq> None"
      by auto
    from is_dir_keeps [OF new_dirs_only_keeps [OF n] d1] show d2: "is_dir (disk w2) p" .
    from d2 canon show "\<forall>k\<le>length p. is_dir (disk w2) (take k p)"
      by (simp add: is_dir_prefix)
    from exists_git_dir [OF canon d2 g] show g2: "exists (disk w2) (joinpath p (Path dot_git))" .
    show "\<forall>r w'. in_project env p True project_type description files commit_message
                         model w1 = (r, w')
                  \<longrightarrow> is_dir (disk w') p \<and> exists (disk w') (joinpath p (Path dot_git))"
    proof (intro allI impI)
      fix r w'
      assume run: "in_project env p True project_type description files commit_message
                     model w1 = (r, w')"
      from in_project_disk [OF run] e have
        cw: "changes_within (disk w2) ((\<lambda>f. joinpath p (Path f)) ` set files) (disk w')"
        by auto
      then have k: "keeps_dirs (disk w2) (disk w')"
        by (rule changes_within_keeps_dirs)
      have "is_dir (disk w') p"
        using k d2 by (rule is_dir_keeps)
      moreover have "exists (disk w') (joinpath p (Path dot_git))"
        using k changes_within_survives [OF cw] g2 by (rule exists_keeps)
      ultimately show "is_dir (disk w') p \<and> exists (disk w') (joinpath p (Path dot_git))"
        by simp
    qed
  }
  {
    assume b: "\<not> exists (disk w) p
            \<and> (\<forall>k\<le>length p. \<forall>c. disk w (take k p) \<noteq> Some (File c))
            \<and> git_exit env GitInit = 0"
    let ?m = "mkdir p (print (CreatingDirectory p) w)"
    have "fst ?m = Returned ()"
      using canon b by (intro mkdir_succeeds) (simp_all add: print_def log_def)
    moreover have "fst (ensure_repository env p True (snd ?m)) = Returned ()"
      using b by (simp add: ensure_repository_new)
    ultimately show "\<exists>w1 w2. mkdir p (print (CreatingDirectory p) w) = (Returned (), w1)
                    \<and> ensure_repository env p True w1 = (Returned (), w2)"
      by (intro exI [of _ "snd ?m"]
            exI [of _ "snd (ensure_repository env p True (snd ?m))"])
         (simp add: prod_eq_iff)
  }
qed

theorem new_project_is_set_up_witness:
  "\<not> exists (disk (world_of root_disk)) (resolve [] (Path [97]))
   \<and> (\<exists>w1 w2. mkdir (resolve [] (Path [97]))
                 (print (CreatingDirectory (resolve [] (Path [97]))) (world_of root_disk))
               = (Returned (), w1)
             \<and> ensure_repository demo_services (resolve [] (Path [97])) True w1
               = (Returned (), w2)
             \<and> is_dir (disk w2) [[97]]
             \<and> exists (disk w2) (joinpath [[97]] (Path dot_git)))"
proof -
  let ?w = "world_of root_disk"
  have absent: "\<not> exists (disk ?w) (resolve [] (Path [97]))"
    using made_new_root_a by (simp add: resolve_a world_of_def made_new_def)
  have nofile: "\<forall>k\<le>length (resolve [] (Path [97])).
                  \<forall>c. disk ?w (take k (resolve [] (Path [97]))) \<noteq> Some (File c)"
  proof (intro allI impI)
    fix k :: nat and c
    assume "k \<le> length (resolve [] (Path [97]))"
    then have "k = 0 \<or> k = 1"
      by (auto simp: resolve_a)
    then show "disk ?w (take k (resolve [] (Path [97]))) \<noteq> Some (File c)"
      by (auto simp: resolve_a world_of_def root_disk_def)
  qed
  from new_project_is_set_up [OF refl, THEN conjunct2, rule_format,
      where cwd = "[]" and path = "[97]" and w = ?w and env = demo_services]
    absent nofile demo_git_exit
  obtain w1 w2 where
    s: "mkdir (resolve [] (Path [97]))
          (print (CreatingDirectory (resolve [] (Path [97]))) ?w) = (Returned (), w1)"
       "ensure_repository demo_services (resolve [] (Path [97])) True w1 = (Returned (), w2)"
    by blast
  from new_project_is_set_up [OF refl, THEN conjunct1, rule_format,
      where cwd = "[]" and path = "[97]" and w = ?w and env = demo_services
        and ?w1.0 = w1 and ?w2.0 = w2 and project_type = "[112]" and description = "[100]"
        and files = "[[102]]" and commit_message = "[109]" and model = "[103]"]
    absent s
  have "is_dir (disk w2) [[97]] \<and> exists (disk w2) (joinpath [[97]] (Path dot_git))"
    by (simp add: resolve_a)
  with absent s show ?thesis
    by blast
qed

end
